theory Spec2Isabelle
  imports
    Main
    "HOL-Library.Char_ord"
    "HOL-Library.List_Lexorder"
    "HOL-Library.Product_Lexorder"
    "HOL-Library.Multiset"
begin

section \<open>Session management (app.py, lines 63-114)\<close>

text \<open>
  An entry of \<^verbatim>\<open>DEFAULT_USERS\<close> (the table itself lives in \<^verbatim>\<open>config.py\<close>, which is
  not part of the sources; it is a parameter of the model). The code reads the keys
  \<^verbatim>\<open>"password"\<close>, \<^verbatim>\<open>"name"\<close> and \<^verbatim>\<open>"role"\<close>.
\<close>

record user =
  name :: string
  password :: string
  role :: string

text \<open>
  A value of the module-level dictionary \<^verbatim>\<open>_sessions\<close>:
  \<^verbatim>\<open>{user_id, name, role, expires_at}\<close>. The fields \<^verbatim>\<open>name\<close> and \<^verbatim>\<open>role\<close> carry the prefix
  \<open>s_\<close> to keep them apart from the fields of \<^typ>\<open>user\<close>. A \<^verbatim>\<open>datetime\<close> is a
  number of microseconds, the resolution of Python's naive datetimes.
\<close>

record session =
  user_id :: string
  s_name :: string
  s_role :: string
  expires_at :: int

type_synonym sessions = "string \<rightharpoonup> session"

text \<open>\<^verbatim>\<open>timedelta(days=1)\<close>, in microseconds.\<close>

definition one_day :: int where
  "one_day = 24 * 60 * 60 * 1000000"

text \<open>
  \<^verbatim>\<open>authenticate(user_id, password)\<close>. The globals are explicit: \<open>IMPORTS_OK\<close>,
  \<open>DEFAULT_USERS\<close> and the store \<open>sessions\<close>, which is returned updated. The two
  effects the function reads from the outside are arguments: \<open>token\<close> is the value of
  \<^verbatim>\<open>secrets.token_hex(32)\<close> and \<open>now\<close> the value of \<^verbatim>\<open>datetime.now()\<close>.
\<close>

definition authenticate ::
  "bool \<Rightarrow> (string \<rightharpoonup> user) \<Rightarrow> string \<Rightarrow> int \<Rightarrow> string \<Rightarrow> string \<Rightarrow> sessions
    \<Rightarrow> (bool \<times> string option \<times> user option) \<times> sessions" where
  "authenticate IMPORTS_OK DEFAULT_USERS token now uid pw sessions =
     (if \<not> IMPORTS_OK then ((False, None, None), sessions)
      else case DEFAULT_USERS uid of
        None \<Rightarrow> ((False, None, None), sessions)
      | Some u \<Rightarrow>
          if password u \<noteq> pw then ((False, None, None), sessions)
          else
            let session_id = token;
                expires = now + one_day
            in ((True, Some session_id, Some u),
                sessions(session_id \<mapsto>
                  \<lparr>user_id = uid, s_name = name u, s_role = role u, expires_at = expires\<rparr>)))"

text \<open>
  \<^verbatim>\<open>get_session(session_id)\<close>. The argument is \<open>None\<close> for Python's \<^verbatim>\<open>None\<close>;
  \<^verbatim>\<open>not session_id\<close> holds for \<^verbatim>\<open>None\<close> and for the empty string.
\<close>

definition get_session :: "int \<Rightarrow> string option \<Rightarrow> sessions \<Rightarrow> session option \<times> sessions" where
  "get_session now session_id sessions =
     (case session_id of
        None \<Rightarrow> (None, sessions)
      | Some sid \<Rightarrow>
          if sid = [] then (None, sessions)
          else case sessions sid of
            None \<Rightarrow> (None, sessions)
          | Some s \<Rightarrow>
              if now > expires_at s then (None, sessions(sid := None))
              else (Some s, sessions))"

text \<open>\<^verbatim>\<open>logout(session_id)\<close>.\<close>

definition logout :: "string \<Rightarrow> sessions \<Rightarrow> sessions" where
  "logout sid sessions = (if sessions sid \<noteq> None then sessions(sid := None) else sessions)"

section \<open>Python values shared by the transforms\<close>

text \<open>
  The exceptions the transforms can raise on a malformed table: a missing column
  (\<^verbatim>\<open>KeyError\<close>) and a column that is too short (\<^verbatim>\<open>IndexError\<close>). A function that can
  raise returns \<open>Inl\<close> of the error or \<open>Inr\<close> of its value; \<open>bindE\<close> passes the first
  error on, as the exception would propagate, and \<open>foldE\<close> is a \<^verbatim>\<open>for\<close> loop whose
  body can raise.
\<close>

datatype py_error = KeyError | IndexError

definition bindE :: "'e + 'a \<Rightarrow> ('a \<Rightarrow> 'e + 'b) \<Rightarrow> 'e + 'b" where
  "bindE m f = (case m of Inl e \<Rightarrow> Inl e | Inr x \<Rightarrow> f x)"

fun foldE :: "('a \<Rightarrow> 's \<Rightarrow> 'e + 's) \<Rightarrow> 'a list \<Rightarrow> 's \<Rightarrow> 'e + 's" where
  "foldE f [] s = Inr s"
| "foldE f (x # xs) s = bindE (f x s) (foldE f xs)"

text \<open>
  The query results are dictionaries of parallel lists. The keys the code reads by name
  have a field each, \<open>None\<close> when the key is absent; every other key is a metric column
  (\<^verbatim>\<open>"metric_value"\<close> in the chart data, the metric names in the pivot data), kept in an
  association list. A metric name is taken to differ from the three fixed keys. An entry
  of a metric column is \<open>None\<close> for Python's \<^verbatim>\<open>None\<close>. The types of the dates \<open>'d\<close> and of
  the raw metric values \<open>'v\<close> are parameters.
\<close>

record ('d, 'v) table =
  App_Name :: "string list option"
  Plan_Name :: "string list option"
  Reporting_Date :: "'d list option"
  metric_cols :: "(string \<times> 'v option list) list"

text \<open>\<^verbatim>\<open>not data\<close> for a dictionary: it has no key at all.\<close>

definition dict_empty :: "('d, 'v) table \<Rightarrow> bool" where
  "dict_empty data =
     (App_Name data = None \<and> Plan_Name data = None \<and> Reporting_Date data = None
      \<and> metric_cols data = [])"

text \<open>\<^verbatim>\<open>data[key][i]\<close> for \<open>i\<close> from a \<^verbatim>\<open>range\<close>, so never negative.\<close>

definition getitem :: "'a list option \<Rightarrow> nat \<Rightarrow> py_error + 'a" where
  "getitem col i =
     (case col of
        None \<Rightarrow> Inl KeyError
      | Some xs \<Rightarrow> if i < length xs then Inr (xs ! i) else Inl IndexError)"

section \<open>Line charts (charts.py, lines 21-150)\<close>

text \<open>
  A trace \<^verbatim>\<open>go.Scatter(x=dates, y=values, name=plan, connectgaps=False, ...)\<close> and the
  figure, as far as the data goes: its traces and the texts of its annotations. Colours,
  hover templates, axis formats and the axis range (the arguments \<^verbatim>\<open>display_name\<close>,
  \<^verbatim>\<open>format_type\<close>, \<^verbatim>\<open>date_range\<close> and \<^verbatim>\<open>theme\<close>) are layout and do not change the points.
\<close>

datatype ('d, 'v) scatter =
  Scatter (sc_name: string) (sc_x: "'d list") (sc_y: "'v list") (connectgaps: bool)

record ('d, 'v) figure =
  traces :: "('d, 'v) scatter list"
  annotations :: "string list"

definition no_data :: "('d, 'v) figure \<times> string list" where
  "no_data = (\<lparr>traces = [], annotations = [''No data available for selected filters'']\<rparr>, [])"

text \<open>
  The body of the loop \<^verbatim>\<open>for i in range(len(data["Plan_Name"]))\<close> that fills
  \<^verbatim>\<open>plan_data\<close>, a dictionary from the plan to its lists \<^verbatim>\<open>dates\<close> and \<^verbatim>\<open>values\<close>.
\<close>

definition organize ::
  "('d, 'v::zero) table \<Rightarrow> nat \<Rightarrow> (string \<rightharpoonup> 'd list \<times> 'v list)
    \<Rightarrow> py_error + (string \<rightharpoonup> 'd list \<times> 'v list)" where
  "organize data i plan_data =
     bindE (getitem (Plan_Name data) i) (\<lambda>plan.
     bindE (getitem (Reporting_Date data) i) (\<lambda>date.
     bindE (getitem (map_of (metric_cols data) ''metric_value'') i) (\<lambda>v.
       let plan_data' =
             (if plan_data plan = None then plan_data(plan \<mapsto> ([], [])) else plan_data)
       in case plan_data' plan of
            None \<Rightarrow> Inl KeyError
          | Some (ds, vs) \<Rightarrow>
              Inr (plan_data'(plan \<mapsto>
                (ds @ [date], vs @ [case v of None \<Rightarrow> 0 | Some x \<Rightarrow> x]))))))"

text \<open>The loop \<^verbatim>\<open>for plan in unique_plans\<close> that adds one trace for a plan of \<^verbatim>\<open>plan_data\<close>.\<close>

fun add_traces ::
  "(string \<rightharpoonup> 'd::linorder list \<times> 'v::linorder list) \<Rightarrow> string list
    \<Rightarrow> ('d, 'v) scatter list \<Rightarrow> ('d, 'v) scatter list" where
  "add_traces plan_data [] fig = fig"
| "add_traces plan_data (plan # plans) fig =
     (case plan_data plan of
        Some (ds, vs) \<Rightarrow>
          let sorted_pairs = sort (zip ds vs)
          in add_traces plan_data plans
               (fig @ [Scatter plan (map fst sorted_pairs) (map snd sorted_pairs) False])
      | None \<Rightarrow> add_traces plan_data plans fig)"

text \<open>
  \<^verbatim>\<open>build_line_chart(data, ...)\<close> returns the figure and the list of plans. The argument
  is \<open>None\<close> for Python's \<^verbatim>\<open>None\<close>. \<^verbatim>\<open>sorted(zip(dates, values))\<close> orders the pairs
  lexicographically, by date and then by value.
\<close>

definition build_line_chart ::
  "('d::linorder, 'v::{linorder,zero}) table option
    \<Rightarrow> py_error + (('d, 'v) figure \<times> string list)" where
  "build_line_chart data =
     (case data of
        None \<Rightarrow> Inr no_data
      | Some d \<Rightarrow>
          if dict_empty d then Inr no_data
          else case Plan_Name d of
            None \<Rightarrow> Inr no_data
          | Some plans \<Rightarrow>
              if length plans = 0 then Inr no_data
              else
                let unique_plans = sorted_list_of_set (set plans)
                in bindE (foldE (organize d) [0..<length plans] Map.empty) (\<lambda>plan_data.
                     Inr (\<lparr>traces = add_traces plan_data unique_plans [], annotations = []\<rparr>,
                          unique_plans)))"

subsection \<open>What the chart of a well-formed table is\<close>

text \<open>
  The chart data is well formed when it has the three columns, of one length. The points
  of a plan are the rows of that plan in the order of the input, with 0 for a missing
  value; \<open>organized\<close> is \<^verbatim>\<open>plan_data\<close> after the first \<open>k\<close> rows, and \<open>series\<close> the trace
  of a plan.
\<close>

definition chart_wf ::
  "('d, 'v) table \<Rightarrow> string list \<Rightarrow> 'd list \<Rightarrow> 'v option list \<Rightarrow> bool" where
  "chart_wf data ps ds vs =
     (Plan_Name data = Some ps \<and> Reporting_Date data = Some ds
      \<and> map_of (metric_cols data) ''metric_value'' = Some vs
      \<and> length ds = length ps \<and> length vs = length ps)"

definition plan_points ::
  "string list \<Rightarrow> 'd list \<Rightarrow> 'v::zero option list \<Rightarrow> string \<Rightarrow> ('d \<times> 'v) list" where
  "plan_points ps ds vs p =
     map (\<lambda>(q, d, v). (d, case v of None \<Rightarrow> 0 | Some x \<Rightarrow> x))
       (filter (\<lambda>(q, d, v). q = p) (zip ps (zip ds vs)))"

definition organized ::
  "string list \<Rightarrow> 'd list \<Rightarrow> 'v::zero option list \<Rightarrow> nat
    \<Rightarrow> (string \<rightharpoonup> 'd list \<times> 'v list)" where
  "organized ps ds vs k =
     (\<lambda>p. if p \<in> set (take k ps)
          then Some (map fst (plan_points (take k ps) (take k ds) (take k vs) p),
                     map snd (plan_points (take k ps) (take k ds) (take k vs) p))
          else None)"

definition series ::
  "string list \<Rightarrow> 'd::linorder list \<Rightarrow> 'v::{linorder,zero} option list \<Rightarrow> string
    \<Rightarrow> ('d, 'v) scatter" where
  "series ps ds vs p =
     Scatter p (map fst (sort (plan_points ps ds vs p)))
       (map snd (sort (plan_points ps ds vs p))) False"

section \<open>Formatting of metric values (app.py, lines 132-153)\<close>

text \<open>
  An entry of \<^verbatim>\<open>METRICS_CONFIG\<close> (defined in \<^verbatim>\<open>config.py\<close>, which is not part of the
  sources, so the table is a parameter). The code reads its keys \<^verbatim>\<open>"format"\<close>,
  \<^verbatim>\<open>"display"\<close> and \<^verbatim>\<open>"suffix"\<close> with \<^verbatim>\<open>get\<close>, so each of them may be absent.
\<close>

record metric_config =
  cfg_format :: "string option"
  cfg_display :: "string option"
  cfg_suffix :: "string option"

text \<open>
  The numbers are Python floats. Their operations belong to the Python runtime and to
  pandas, not to this program, and are parameters: \<open>isna v\<close> is \<^verbatim>\<open>pd.isna(value)\<close> on a
  value other than \<^verbatim>\<open>None\<close>; \<open>to_float v\<close> is \<^verbatim>\<open>float(value)\<close>, \<open>round_int x\<close> is
  \<^verbatim>\<open>round(x)\<close>, \<open>round_2 x\<close> is \<^verbatim>\<open>round(x, 2)\<close>, each \<open>None\<close> when the call raises;
  \<open>times_100 x\<close> is \<^verbatim>\<open>x * 100\<close>. \<^verbatim>\<open>round(x)\<close> returns a Python integer and
  \<^verbatim>\<open>round(x, 2)\<close> a float.
\<close>

record ('v, 'f) numerics =
  isna :: "'v \<Rightarrow> bool"
  to_float :: "'v \<Rightarrow> 'f option"
  round_int :: "'f \<Rightarrow> int option"
  round_2 :: "'f \<Rightarrow> 'f option"
  times_100 :: "'f \<Rightarrow> 'f"

datatype 'f pynum = PyInt int | PyFloat 'f

text \<open>
  \<^verbatim>\<open>format_metric_value(value, metric_name, is_crystal_ball)\<close>. The bare \<^verbatim>\<open>except\<close> turns
  every exception of the three \<^verbatim>\<open>return\<close> statements into \<^verbatim>\<open>None\<close>.
\<close>

definition format_metric_value ::
  "('v, 'f) numerics \<Rightarrow> (string \<rightharpoonup> metric_config) \<Rightarrow> 'v option \<Rightarrow> string \<Rightarrow> bool
    \<Rightarrow> 'f pynum option" where
  "format_metric_value py METRICS_CONFIG val metric_name is_crystal_ball =
     (case val of
        None \<Rightarrow> None
      | Some v \<Rightarrow>
          if isna py v then None
          else
            let format_type =
                  (case METRICS_CONFIG metric_name of
                     None \<Rightarrow> ''number''
                   | Some config \<Rightarrow>
                       (case cfg_format config of None \<Rightarrow> ''number'' | Some f \<Rightarrow> f))
            in if metric_name = ''Rebills'' \<and> is_crystal_ball
               then (case to_float py v of
                       None \<Rightarrow> None
                     | Some x \<Rightarrow> map_option PyInt (round_int py x))
               else if format_type = ''percent''
               then (case to_float py v of
                       None \<Rightarrow> None
                     | Some x \<Rightarrow> map_option PyFloat (round_2 py (times_100 py x)))
               else (case to_float py v of
                       None \<Rightarrow> None
                     | Some x \<Rightarrow> map_option PyFloat (round_2 py x)))"

text \<open>\<^verbatim>\<open>get_display_metric_name(metric_name)\<close>.\<close>

definition get_display_metric_name :: "(string \<rightharpoonup> metric_config) \<Rightarrow> string \<Rightarrow> string" where
  "get_display_metric_name METRICS_CONFIG metric_name =
     (let disp = (case METRICS_CONFIG metric_name of
                    None \<Rightarrow> metric_name
                  | Some config \<Rightarrow>
                      (case cfg_display config of None \<Rightarrow> metric_name | Some d \<Rightarrow> d));
          suff = (case METRICS_CONFIG metric_name of
                    None \<Rightarrow> []
                  | Some config \<Rightarrow> (case cfg_suffix config of None \<Rightarrow> [] | Some s \<Rightarrow> s))
      in disp @ suff)"

section \<open>The pivot table (app.py, lines 156-192)\<close>

text \<open>
  A row is a Python dictionary, which keeps its keys in the order of their first
  insertion: an association list with distinct keys. \<open>dict_set\<close> is \<^verbatim>\<open>row[k] = v\<close>, and
  a value of a row is a string (\<^verbatim>\<open>App\<close>, \<^verbatim>\<open>Plan\<close>, \<^verbatim>\<open>Metric\<close>) or a formatted number or
  \<^verbatim>\<open>None\<close> (the date columns).
\<close>

datatype 'f cell = Str string | Num "'f pynum option"

type_synonym 'f row = "(string \<times> 'f cell) list"

fun dict_set :: "('k \<times> 'a) list \<Rightarrow> 'k \<Rightarrow> 'a \<Rightarrow> ('k \<times> 'a) list" where
  "dict_set [] k v = [(k, v)]"
| "dict_set ((k', v') # kvs) k v =
     (if k' = k then (k', v) # kvs else (k', v') # dict_set kvs k v)"

text \<open>
  \<^verbatim>\<open>pd.DataFrame(rows)\<close> for a list of dictionaries: the records, and as columns the keys
  of the rows in the order of their first appearance (pandas is not part of the sources;
  this is its documented behaviour).
\<close>

record 'f dataframe =
  columns :: "string list"
  records :: "'f row list"

definition DataFrame :: "'f row list \<Rightarrow> 'f dataframe" where
  "DataFrame rows =
     \<lparr>columns = fold (\<lambda>r acc. acc @ filter (\<lambda>k. k \<notin> set acc) (map fst r)) rows [],
      records = rows\<rparr>"

text \<open>
  The body of the first loop: \<^verbatim>\<open>plan_combos\<close> collects the pairs of application and plan
  in the order in which they are first seen.
\<close>

definition collect_combo ::
  "('d, 'v) table \<Rightarrow> nat \<Rightarrow> (string \<times> string) list \<times> (string \<times> string) set
    \<Rightarrow> py_error + (string \<times> string) list \<times> (string \<times> string) set" where
  "collect_combo pivot_data i st =
     bindE (getitem (App_Name pivot_data) i) (\<lambda>app.
     bindE (getitem (Plan_Name pivot_data) i) (\<lambda>plan.
       let combo = (app, plan)
       in if combo \<notin> snd st then Inr (fst st @ [combo], insert combo (snd st))
          else Inr st))"

text \<open>
  The body of the second loop. \<^verbatim>\<open>lookup\<close> maps a key \<^verbatim>\<open>(app, plan, date)\<close> to a dictionary
  from the metric to the raw value of the row; the inner loop over the selected metrics
  assigns \<^verbatim>\<open>lookup[key][metric]\<close> on every row, also when the key is already there.
\<close>

definition store_metric ::
  "('d, 'v) table \<Rightarrow> nat \<Rightarrow> string \<Rightarrow> (string \<rightharpoonup> 'v option)
    \<Rightarrow> py_error + (string \<rightharpoonup> 'v option)" where
  "store_metric pivot_data i metric entry =
     (if map_of (metric_cols pivot_data) metric \<noteq> None
      then bindE (getitem (map_of (metric_cols pivot_data) metric) i) (\<lambda>v.
             Inr (entry(metric \<mapsto> v)))
      else Inr entry)"

definition fill_lookup ::
  "('d, 'v) table \<Rightarrow> string list \<Rightarrow> nat
    \<Rightarrow> (string \<times> string \<times> 'd \<rightharpoonup> (string \<rightharpoonup> 'v option))
    \<Rightarrow> py_error + (string \<times> string \<times> 'd \<rightharpoonup> (string \<rightharpoonup> 'v option))" where
  "fill_lookup pivot_data selected_metrics i lookup =
     bindE (getitem (App_Name pivot_data) i) (\<lambda>app.
     bindE (getitem (Plan_Name pivot_data) i) (\<lambda>plan.
     bindE (getitem (Reporting_Date pivot_data) i) (\<lambda>date.
       let key = (app, plan, date);
           lookup' = (if lookup key = None then lookup(key \<mapsto> Map.empty) else lookup)
       in case lookup' key of
            None \<Rightarrow> Inl KeyError
          | Some entry \<Rightarrow>
              bindE (foldE (store_metric pivot_data i) selected_metrics entry) (\<lambda>entry'.
                Inr (lookup'(key \<mapsto> entry'))))))"

text \<open>\<^verbatim>\<open>lookup.get(key, {}).get(metric, None)\<close>.\<close>

definition raw_value ::
  "(string \<times> string \<times> 'd \<rightharpoonup> (string \<rightharpoonup> 'v option)) \<Rightarrow> string \<times> string \<times> 'd \<Rightarrow> string
    \<Rightarrow> 'v option" where
  "raw_value lookup key metric =
     (case lookup key of
        None \<Rightarrow> None
      | Some entry \<Rightarrow> (case entry metric of None \<Rightarrow> None | Some v \<Rightarrow> v))"

text \<open>
  One row of the third loop. \<open>date_label d\<close> is \<^verbatim>\<open>date_map[d]\<close>, that is
  \<^verbatim>\<open>d.strftime("%m/%d/%Y") if hasattr(d, 'strftime') else str(d)\<close>; both are functions of
  the Python library and \<open>date_label\<close> is a parameter.
\<close>

definition make_row ::
  "('v, 'f) numerics \<Rightarrow> (string \<rightharpoonup> metric_config) \<Rightarrow> ('d \<Rightarrow> string)
    \<Rightarrow> (string \<times> string \<times> 'd \<rightharpoonup> (string \<rightharpoonup> 'v option)) \<Rightarrow> bool \<Rightarrow> 'd list
    \<Rightarrow> string \<Rightarrow> string \<Rightarrow> string \<Rightarrow> 'f row" where
  "make_row py METRICS_CONFIG date_label lookup is_crystal_ball unique_dates
      app_name plan_name metric =
     fold (\<lambda>d row.
          dict_set row (date_label d)
            (Num (format_metric_value py METRICS_CONFIG
                    (raw_value lookup (app_name, plan_name, d) metric) metric is_crystal_ball)))
       unique_dates
       [(''App'', Str app_name), (''Plan'', Str plan_name),
        (''Metric'', Str (get_display_metric_name METRICS_CONFIG metric))]"

text \<open>
  \<^verbatim>\<open>process_pivot_data(pivot_data, selected_metrics, is_crystal_ball)\<close>. The result is
  \<open>Inr None\<close> for \<^verbatim>\<open>return None\<close>, \<open>Inr (Some df)\<close> for a data frame and \<open>Inl\<close> of the
  exception when the table is malformed.
\<close>

definition process_pivot_data ::
  "('v, 'f) numerics \<Rightarrow> (string \<rightharpoonup> metric_config) \<Rightarrow> ('d::linorder \<Rightarrow> string)
    \<Rightarrow> ('d, 'v) table option \<Rightarrow> string list \<Rightarrow> bool
    \<Rightarrow> py_error + 'f dataframe option" where
  "process_pivot_data py METRICS_CONFIG date_label pivot_data selected_metrics is_crystal_ball =
     (case pivot_data of
        None \<Rightarrow> Inr None
      | Some pd \<Rightarrow>
          if dict_empty pd then Inr None
          else case Reporting_Date pd of
            None \<Rightarrow> Inr None
          | Some dates \<Rightarrow>
              if length dates = 0 then Inr None
              else
                let unique_dates = rev (sorted_list_of_set (set dates))
                in case App_Name pd of
                     None \<Rightarrow> Inl KeyError
                   | Some apps \<Rightarrow>
                       bindE (foldE (collect_combo pd) [0..<length apps] ([], {})) (\<lambda>st.
                       let plan_combos = sort_key (\<lambda>x. (fst x, snd x)) (fst st)
                       in bindE (foldE (fill_lookup pd selected_metrics) [0..<length dates]
                                  Map.empty) (\<lambda>lookup.
                            Inr (Some (DataFrame
                              (fold (\<lambda>(app_name, plan_name) rows.
                                  fold (\<lambda>metric rows.
                                      rows @ [make_row py METRICS_CONFIG date_label lookup
                                                is_crystal_ball unique_dates
                                                app_name plan_name metric])
                                    selected_metrics rows)
                                plan_combos []))))))"

text \<open>
  \<^verbatim>\<open>strftime("%m/%d/%Y")\<close> of a \<^verbatim>\<open>datetime.date\<close>, given as (year, month, day), for the
  years from 1000 to 9999, where \<^verbatim>\<open>%Y\<close> has four digits: the instance of \<open>date_label\<close>
  for calendar dates. The order of the triples is the order of the dates.
\<close>

definition digit :: "nat \<Rightarrow> char" where
  "digit n = char_of (48 + n)"

definition strftime_mdY :: "nat \<times> nat \<times> nat \<Rightarrow> string" where
  "strftime_mdY date =
     (case date of (y, m, d) \<Rightarrow>
        [digit (m div 10), digit (m mod 10), CHR ''/'',
         digit (d div 10), digit (d mod 10), CHR ''/'',
         digit (y div 1000), digit (y div 100 mod 10), digit (y div 10 mod 10),
         digit (y mod 10)])"

text \<open>
  An instance of the numeric operations: Python's floats restricted to whole numbers
  (below \<open>2^53\<close> in size), which are not NaN, on which \<^verbatim>\<open>float\<close> and both roundings
  change nothing and the product with 100 is exact.
\<close>

definition whole_numbers :: "(int, int) numerics" where
  "whole_numbers =
     \<lparr>isna = (\<lambda>v. False), to_float = Some, round_int = Some, round_2 = Some,
      times_100 = (\<lambda>x. x * 100)\<rparr>"

subsection \<open>What the pivot of a well-formed table is\<close>

text \<open>
  The pivot data is well formed when it has the three key columns and every metric
  column has the length of the date column. \<open>first_seen\<close> keeps the first occurrence of
  every element; \<open>last_row\<close> is the index of the last row that bears a key.
\<close>

definition pivot_wf ::
  "('d, 'v) table \<Rightarrow> string list \<Rightarrow> string list \<Rightarrow> 'd list \<Rightarrow> bool" where
  "pivot_wf pd apps plans dates =
     (App_Name pd = Some apps \<and> Plan_Name pd = Some plans \<and> Reporting_Date pd = Some dates
      \<and> length apps = length dates \<and> length plans = length dates
      \<and> list_all (\<lambda>c. length (snd c) = length dates) (metric_cols pd))"

definition first_seen :: "'a list \<Rightarrow> 'a list" where
  "first_seen xs = fold (\<lambda>x acc. if x \<in> set acc then acc else acc @ [x]) xs []"

definition last_row ::
  "string list \<Rightarrow> string list \<Rightarrow> 'd list \<Rightarrow> nat \<Rightarrow> string \<times> string \<times> 'd \<Rightarrow> nat option" where
  "last_row apps plans dates k key =
     find (\<lambda>i. (apps ! i, plans ! i, dates ! i) = key) (rev [0..<k])"

text \<open>
  The entry of \<^verbatim>\<open>lookup\<close> written by row \<open>i\<close>, \<^verbatim>\<open>lookup\<close> after the first \<open>k\<close> rows, and
  the raw value the finished \<^verbatim>\<open>lookup\<close> gives for a key and a metric: the value of the
  metric in the last row that bears the key.
\<close>

definition entry_at :: "('d, 'v) table \<Rightarrow> string list \<Rightarrow> nat \<Rightarrow> (string \<rightharpoonup> 'v option)" where
  "entry_at pd metrics i =
     (\<lambda>m. if m \<in> set metrics
          then (case map_of (metric_cols pd) m of None \<Rightarrow> None | Some col \<Rightarrow> Some (col ! i))
          else None)"

definition lookup_upto ::
  "('d, 'v) table \<Rightarrow> string list \<Rightarrow> string list \<Rightarrow> string list \<Rightarrow> 'd list \<Rightarrow> nat
    \<Rightarrow> (string \<times> string \<times> 'd \<rightharpoonup> (string \<rightharpoonup> 'v option))" where
  "lookup_upto pd metrics apps plans dates k =
     (\<lambda>key. case last_row apps plans dates k key of
              None \<Rightarrow> None
            | Some i \<Rightarrow> Some (entry_at pd metrics i))"

definition last_value ::
  "('d, 'v) table \<Rightarrow> string list \<Rightarrow> string list \<Rightarrow> 'd list \<Rightarrow> string \<times> string \<times> 'd
    \<Rightarrow> string \<Rightarrow> 'v option" where
  "last_value pd apps plans dates key m =
     (case last_row apps plans dates (length dates) key of
        None \<Rightarrow> None
      | Some i \<Rightarrow> (case map_of (metric_cols pd) m of None \<Rightarrow> None | Some col \<Rightarrow> col ! i))"

text \<open>
  The row of the pivot for an application, a plan and a metric, and all rows: a block per
  pair of application and plan, the pairs ascending, and in a block a row per selected
  metric in the order of the selection. The date cells follow the distinct dates in
  descending order.
\<close>

definition pivot_row ::
  "('v, 'f) numerics \<Rightarrow> (string \<rightharpoonup> metric_config) \<Rightarrow> ('d::linorder \<Rightarrow> string)
    \<Rightarrow> ('d, 'v) table \<Rightarrow> string list \<Rightarrow> string list \<Rightarrow> 'd list \<Rightarrow> bool
    \<Rightarrow> string \<Rightarrow> string \<Rightarrow> string \<Rightarrow> 'f row" where
  "pivot_row py cfg date_label pd apps plans dates cb a p m =
     [(''App'', Str a), (''Plan'', Str p), (''Metric'', Str (get_display_metric_name cfg m))]
     @ map (\<lambda>d. (date_label d,
                 Num (format_metric_value py cfg (last_value pd apps plans dates (a, p, d) m)
                        m cb)))
         (rev (sorted_list_of_set (set dates)))"

definition pivot_rows ::
  "('v, 'f) numerics \<Rightarrow> (string \<rightharpoonup> metric_config) \<Rightarrow> ('d::linorder \<Rightarrow> string)
    \<Rightarrow> ('d, 'v) table \<Rightarrow> string list \<Rightarrow> string list \<Rightarrow> 'd list \<Rightarrow> string list \<Rightarrow> bool
    \<Rightarrow> 'f row list" where
  "pivot_rows py cfg date_label pd apps plans dates metrics cb =
     concat (map (\<lambda>(a, p). map (pivot_row py cfg date_label pd apps plans dates cb a p) metrics)
               (sorted_list_of_set (set (zip apps plans))))"

text \<open>The date columns of a data frame: all columns but the three fixed ones.\<close>

definition date_columns :: "'f dataframe \<Rightarrow> string list" where
  "date_columns df = filter (\<lambda>c. c \<notin> {''App'', ''Plan'', ''Metric''}) (columns df)"

subsection \<open>Two concrete tables\<close>

text \<open>
  The table of the specification's example: the plans \<open>(A, P1)\<close> and \<open>(A, P2)\<close> on
  2024-01-01 and 2024-02-01 with the metric \<open>M\<close>; and a table whose two rows bear the
  same application, plan and date with different values of \<open>M\<close>.
\<close>

definition example_pivot :: "(nat \<times> nat \<times> nat, int) table" where
  "example_pivot =
     \<lparr>App_Name = Some [''A'', ''A'', ''A'', ''A''],
      Plan_Name = Some [''P2'', ''P1'', ''P2'', ''P1''],
      Reporting_Date = Some [(2024, 1, 1), (2024, 1, 1), (2024, 2, 1), (2024, 2, 1)],
      metric_cols = [(''M'', [Some 1, Some 2, Some 3, None])]\<rparr>"

definition duplicate_pivot :: "(nat \<times> nat \<times> nat, int) table" where
  "duplicate_pivot =
     \<lparr>App_Name = Some [''A'', ''A''],
      Plan_Name = Some [''P'', ''P''],
      Reporting_Date = Some [(2024, 1, 1), (2024, 1, 1)],
      metric_cols = [(''M'', [Some 1, Some 2])]\<rparr>"

text \<open>The calendar dates on which \<open>strftime_mdY\<close> is \<^verbatim>\<open>strftime("%m/%d/%Y")\<close>.\<close>

definition valid_date :: "nat \<times> nat \<times> nat \<Rightarrow> bool" where
  "valid_date date =
     (case date of (y, m, d) \<Rightarrow>
        1000 \<le> y \<and> y \<le> 9999 \<and> 1 \<le> m \<and> m \<le> 12 \<and> 1 \<le> d \<and> d \<le> 31)"

section \<open>Properties of the session store\<close>

text \<open>
  Claim C5. A call of \<open>get_session\<close> on a stored session whose expiry time has passed
  returns no session and removes the entry from the store; any later call with the same
  id (whatever the clock reads then) again returns no session and leaves the store as it
  is. An absent (\<open>None\<close>), empty or unknown session id returns no session and leaves the
  store unchanged. Session ids are the tokens of \<open>authenticate\<close>, which are never empty.
\<close>

theorem get_session_expired:
  "(sessions sid = Some s \<and> sid \<noteq> [] \<and> expires_at s < now \<longrightarrow>
      get_session now (Some sid) sessions = (None, sessions(sid := None))
      \<and> get_session now' (Some sid) (sessions(sid := None)) = (None, sessions(sid := None)))
   \<and> get_session now None sessions = (None, sessions)
   \<and> get_session now (Some []) sessions = (None, sessions)
   \<and> (sessions sid = None \<longrightarrow> get_session now (Some sid) sessions = (None, sessions))"
  by (simp add: get_session_def)

theorem get_session_expired_witness:
  "get_session 11 (Some ''t'')
      [''t'' \<mapsto> \<lparr>user_id = ''u'', s_name = ''n'', s_role = ''r'', expires_at = 10\<rparr>]
     = (None, Map.empty)
   \<and> get_session 5 (Some ''t'') Map.empty = (None, Map.empty)"
  using get_session_expired
    [of "[''t'' \<mapsto> \<lparr>user_id = ''u'', s_name = ''n'', s_role = ''r'', expires_at = 10\<rparr>]"
        "''t''" "\<lparr>user_id = ''u'', s_name = ''n'', s_role = ''r'', expires_at = 10\<rparr>" 11 5]
  by simp

text \<open>
  Claim C6. Each of the three causes of failure (the imports failed, so there is no user
  directory; the user id has no entry; the password differs from the stored one) gives
  the same result \<open>(False, None, None)\<close> and leaves the session store unchanged; and
  a call either has exactly this outcome or reports success.
\<close>

theorem authenticate_failure:
  "((\<not> IMPORTS_OK \<or> DEFAULT_USERS uid = None
      \<or> (\<exists>u. DEFAULT_USERS uid = Some u \<and> password u \<noteq> pw))
     \<longrightarrow> authenticate IMPORTS_OK DEFAULT_USERS token now uid pw sessions
        = ((False, None, None), sessions))
   \<and> (authenticate IMPORTS_OK DEFAULT_USERS token now uid pw sessions
        = ((False, None, None), sessions)
      \<or> fst (fst (authenticate IMPORTS_OK DEFAULT_USERS token now uid pw sessions)))"
  by (auto simp: authenticate_def Let_def split: option.splits)

theorem authenticate_failure_witness:
  "authenticate False Map.empty ''t'' 0 ''u'' ''p'' Map.empty = ((False, None, None), Map.empty)
   \<and> authenticate True Map.empty ''t'' 0 ''u'' ''p'' Map.empty = ((False, None, None), Map.empty)
   \<and> authenticate True [''u'' \<mapsto> \<lparr>name = ''n'', password = ''q'', role = ''r''\<rparr>]
        ''t'' 0 ''u'' ''p'' Map.empty = ((False, None, None), Map.empty)"
proof -
  have a: "authenticate False Map.empty ''t'' 0 ''u'' ''p'' Map.empty
      = ((False, None, None), Map.empty)"
    using authenticate_failure [of False Map.empty "''u''" "''p''" "''t''" 0 Map.empty,
        THEN conjunct1]
    by simp
  have b: "authenticate True Map.empty ''t'' 0 ''u'' ''p'' Map.empty
      = ((False, None, None), Map.empty)"
    using authenticate_failure [of True Map.empty "''u''" "''p''" "''t''" 0 Map.empty,
        THEN conjunct1]
    by simp
  have c: "authenticate True [''u'' \<mapsto> \<lparr>name = ''n'', password = ''q'', role = ''r''\<rparr>]
        ''t'' 0 ''u'' ''p'' Map.empty = ((False, None, None), Map.empty)"
    using authenticate_failure
      [of True "[''u'' \<mapsto> \<lparr>name = ''n'', password = ''q'', role = ''r''\<rparr>]"
        "''u''" "''p''" "''t''" 0 Map.empty, THEN conjunct1]
    by simp
  from a b c show ?thesis by blast
qed

text \<open>
  Claim C7. A successful call (imports fine, the user known, the password equal) whose
  generated token is fresh, that is not yet a key of the store, returns the token and the
  user, and the new store is the old one with one more entry: the token maps to the
  user's id, name and role with expiry \<open>now\<close> plus one day (24 hours), every entry that
  was there before is unchanged, and the number of entries grows by one.
\<close>

theorem authenticate_success:
  assumes "IMPORTS_OK" and "DEFAULT_USERS uid = Some u" and "password u = pw"
    and "token \<notin> dom sessions" and "finite (dom sessions)"
  shows "\<exists>sessions'.
      authenticate IMPORTS_OK DEFAULT_USERS token now uid pw sessions
        = ((True, Some token, Some u), sessions')
      \<and> sessions' token = Some \<lparr>user_id = uid, s_name = name u, s_role = role u,
            expires_at = now + 24 * 3600 * 1000000\<rparr>
      \<and> (\<forall>k. k \<noteq> token \<longrightarrow> sessions' k = sessions k)
      \<and> (\<forall>k \<in> dom sessions. sessions' k = sessions k)
      \<and> dom sessions' = insert token (dom sessions)
      \<and> card (dom sessions') = card (dom sessions) + 1"
  using assms by (auto simp: authenticate_def Let_def one_day_def)

theorem authenticate_success_witness:
  "\<exists>sessions'.
     authenticate True [''u'' \<mapsto> \<lparr>name = ''n'', password = ''p'', role = ''r''\<rparr>]
        ''t2'' 7 ''u'' ''p''
        [''t1'' \<mapsto> \<lparr>user_id = ''u'', s_name = ''n'', s_role = ''r'', expires_at = 3\<rparr>]
       = ((True, Some ''t2'', Some \<lparr>name = ''n'', password = ''p'', role = ''r''\<rparr>), sessions')
     \<and> sessions' ''t1'' = Some \<lparr>user_id = ''u'', s_name = ''n'', s_role = ''r'', expires_at = 3\<rparr>
     \<and> sessions' ''t2''
         = Some \<lparr>user_id = ''u'', s_name = ''n'', s_role = ''r'', expires_at = 86400000007\<rparr>"
  using authenticate_success
    [of True "[''u'' \<mapsto> \<lparr>name = ''n'', password = ''p'', role = ''r''\<rparr>]" "''u''"
        "\<lparr>name = ''n'', password = ''p'', role = ''r''\<rparr>" "''p''" "''t2''"
        "[''t1'' \<mapsto> \<lparr>user_id = ''u'', s_name = ''n'', s_role = ''r'', expires_at = 3\<rparr>]" 7]
  by auto

section \<open>Error propagation\<close>

lemma bindE_Inr [simp]: "bindE (Inr x) f = f x"
  by (simp add: bindE_def)

lemma bindE_Inl [simp]: "bindE (Inl e) f = Inl e"
  by (simp add: bindE_def)

lemma foldE_append: "foldE f (xs @ ys) s = bindE (foldE f xs s) (foldE f ys)"
  by (induction xs arbitrary: s) (auto simp: bindE_def split: sum.splits)

lemma bindE_Inr_right [simp]: "bindE m Inr = m"
  by (cases m) simp_all

lemma foldE_Nil_fun: "foldE f [] = Inr"
  by (rule ext) simp

lemma foldE_snoc: "foldE f (xs @ [x]) s = bindE (foldE f xs s) (f x)"
  by (cases "foldE f xs s") (simp_all add: foldE_append foldE_Nil_fun)

section \<open>Properties of the line charts\<close>

lemma plan_points_take_Suc:
  assumes "k < length ps" "length ds = length ps" "length vs = length ps"
  shows "plan_points (take (Suc k) ps) (take (Suc k) ds) (take (Suc k) vs) p =
    plan_points (take k ps) (take k ds) (take k vs) p
      @ (if ps ! k = p then [(ds ! k, case vs ! k of None \<Rightarrow> 0 | Some x \<Rightarrow> x)] else [])"
  using assms by (simp add: plan_points_def take_Suc_conv_app_nth)

lemma plan_points_Nil_iff:
  assumes "length ds = length ps" "length vs = length ps"
  shows "p \<notin> set ps \<Longrightarrow> plan_points ps ds vs p = []"
  unfolding plan_points_def
  by (auto simp: filter_empty_conv dest: set_zip_leftD)

lemma organize_step:
  assumes wf: "chart_wf data ps ds vs" and k: "k < length ps"
  shows "organize data k (organized ps ds vs k) = Inr (organized ps ds vs (Suc k))"
proof -
  have len: "length ds = length ps" "length vs = length ps"
    using wf by (simp_all add: chart_wf_def)
  have nin: "ps ! k \<notin> set (take k ps) \<Longrightarrow>
      plan_points (take k ps) (take k ds) (take k vs) (ps ! k) = []"
    by (rule plan_points_Nil_iff) (simp_all add: len)
  have set_Suc: "set (take (Suc k) ps) = insert (ps ! k) (set (take k ps))"
    using k by (simp add: take_Suc_conv_app_nth)
  show ?thesis
    using wf k len
    apply (simp add: organize_def getitem_def chart_wf_def Let_def)
    apply (rule conjI)
     apply (clarsimp simp: organized_def)
     apply (rule ext)
     apply (simp add: plan_points_take_Suc set_Suc nin)
    apply (clarsimp simp: organized_def)
    apply (rule ext)
    apply (simp add: plan_points_take_Suc set_Suc)
    done
qed

lemma organize_loop:
  assumes wf: "chart_wf data ps ds vs"
  shows "k \<le> length ps \<Longrightarrow>
    foldE (organize data) [0..<k] Map.empty = Inr (organized ps ds vs k)"
proof (induction k)
  case 0
  show ?case by (simp add: organized_def)
next
  case (Suc k)
  then show ?case
    using organize_step [OF wf, of k] by (simp add: foldE_snoc)
qed

lemma add_traces_organized:
  "length ds = length ps \<Longrightarrow> length vs = length ps \<Longrightarrow> set plans \<subseteq> set ps \<Longrightarrow>
   add_traces (organized ps ds vs (length ps)) plans fig
     = fig @ map (series ps ds vs) plans"
  by (induction plans arbitrary: fig)
    (auto simp: organized_def series_def zip_map_fst_snd Let_def)

lemma build_line_chart_wf:
  assumes wf: "chart_wf data ps ds vs" and ne: "ps \<noteq> []"
  shows "build_line_chart (Some data) =
    Inr (\<lparr>traces = map (series ps ds vs) (sorted_list_of_set (set ps)), annotations = []\<rparr>,
         sorted_list_of_set (set ps))"
proof -
  have nf: "\<not> dict_empty data"
    using wf by (simp add: dict_empty_def chart_wf_def)
  have P: "Plan_Name data = Some ps"
    using wf by (simp add: chart_wf_def)
  have len: "length ds = length ps" "length vs = length ps"
    using wf by (simp_all add: chart_wf_def)
  show ?thesis
    using nf P ne organize_loop [OF wf, of "length ps"]
    by (simp add: build_line_chart_def Let_def add_traces_organized [OF len])
qed


lemma length_plan_points:
  "length ps = length ds \<Longrightarrow> length ds = length vs \<Longrightarrow>
   length (plan_points ps ds vs p) = count_list ps p"
proof (induction ps ds vs rule: list_induct3)
  case Nil
  show ?case by (simp add: plan_points_def)
next
  case (Cons x xs y ys z zs)
  then show ?case by (simp add: plan_points_def)
qed

lemma build_line_chart_no_data:
  "build_line_chart None =
     Inr (\<lparr>traces = [], annotations = [''No data available for selected filters'']\<rparr>, [])"
  "Plan_Name data = None \<or> Plan_Name data = Some [] \<Longrightarrow>
   build_line_chart (Some data) =
     Inr (\<lparr>traces = [], annotations = [''No data available for selected filters'']\<rparr>, [])"
  by (auto simp: build_line_chart_def no_data_def dict_empty_def split: option.splits)

lemma series_simps:
  "sc_name (series ps ds vs p) = p"
  "sc_x (series ps ds vs p) = map fst (sort (plan_points ps ds vs p))"
  "sc_y (series ps ds vs p) = map snd (sort (plan_points ps ds vs p))"
  "connectgaps (series ps ds vs p) = False"
  by (simp_all add: series_def)

lemma sorted_map_fst:
  "sorted (xs :: ('a::linorder \<times> 'b::linorder) list) \<Longrightarrow> sorted (map fst xs)"
  by (induction xs) (auto simp: less_eq_prod_def)

text \<open>
  Claim C8. Without data (the argument is \<^verbatim>\<open>None\<close>, or it has no \<^verbatim>\<open>Plan_Name\<close> column, or
  that column is empty; an empty dictionary has no \<^verbatim>\<open>Plan_Name\<close>) the result is the figure
  with the no-data annotation, no trace and the empty list of plans. For a well-formed
  table with at least one row, the list of plans is the distinct plan names in ascending
  order, there is one trace per plan in that order, and the points of the trace of a plan
  are exactly the rows of this plan, with 0 for a missing value, no point more and none
  less, in ascending order of the date. A plan with the rows \<open>(d1, 5)\<close> and
  \<open>(d2, None)\<close>, \<open>d1\<close> before \<open>d2\<close>, gets the values \<open>[5, 0]\<close>.
\<close>

theorem build_line_chart_series:
  "build_line_chart (None :: ('d::linorder, 'v::{linorder,zero,numeral}) table option) =
     Inr (\<lparr>traces = [], annotations = [''No data available for selected filters'']\<rparr>, [])
   \<and> (Plan_Name data = None \<or> Plan_Name data = Some [] \<longrightarrow>
        build_line_chart (Some (data :: ('d, 'v) table)) =
          Inr (\<lparr>traces = [], annotations = [''No data available for selected filters'']\<rparr>, []))
   \<and> (chart_wf data ps ds vs \<and> ps \<noteq> [] \<longrightarrow>
        (\<exists>fig plans. build_line_chart (Some data) = Inr (fig, plans)
          \<and> annotations fig = []
          \<and> sorted plans \<and> distinct plans \<and> set plans = set ps
          \<and> map sc_name (traces fig) = plans
          \<and> (\<forall>t \<in> set (traces fig).
                length (sc_x t) = length (sc_y t)
                \<and> sorted (sc_x t)
                \<and> mset (zip (sc_x t) (sc_y t)) = mset (plan_points ps ds vs (sc_name t))
                \<and> \<not> connectgaps t)))
   \<and> (chart_wf data [p, p] [d1, d2] [Some 5, None] \<and> d1 < d2 \<longrightarrow>
        (\<exists>fig. build_line_chart (Some data) = Inr (fig, [p])
          \<and> traces fig = [Scatter p [d1, d2] [5, 0] False]))"
proof (intro conjI impI)
  show "build_line_chart (None :: ('d, 'v) table option) =
     Inr (\<lparr>traces = [], annotations = [''No data available for selected filters'']\<rparr>, [])"
    by (rule build_line_chart_no_data)
next
  assume "Plan_Name data = None \<or> Plan_Name data = Some []"
  then show "build_line_chart (Some data) =
      Inr (\<lparr>traces = [], annotations = [''No data available for selected filters'']\<rparr>, [])"
    by (rule build_line_chart_no_data)
next
  assume a: "chart_wf data ps ds vs \<and> ps \<noteq> []"
  then have eq: "build_line_chart (Some data) =
    Inr (\<lparr>traces = map (series ps ds vs) (sorted_list_of_set (set ps)), annotations = []\<rparr>,
         sorted_list_of_set (set ps))"
    by (simp add: build_line_chart_wf)
  have names: "map sc_name (map (series ps ds vs) (sorted_list_of_set (set ps)))
      = sorted_list_of_set (set ps)"
    by (simp add: series_simps comp_def)
  have each: "\<forall>t \<in> set (map (series ps ds vs) (sorted_list_of_set (set ps))).
      length (sc_x t) = length (sc_y t)
      \<and> sorted (sc_x t)
      \<and> mset (zip (sc_x t) (sc_y t)) = mset (plan_points ps ds vs (sc_name t))
      \<and> \<not> connectgaps t"
    by (auto simp: series_simps zip_map_fst_snd sorted_map_fst)
  show "\<exists>fig plans. build_line_chart (Some data) = Inr (fig, plans)
          \<and> annotations fig = []
          \<and> sorted plans \<and> distinct plans \<and> set plans = set ps
          \<and> map sc_name (traces fig) = plans
          \<and> (\<forall>t \<in> set (traces fig).
                length (sc_x t) = length (sc_y t)
                \<and> sorted (sc_x t)
                \<and> mset (zip (sc_x t) (sc_y t)) = mset (plan_points ps ds vs (sc_name t))
                \<and> \<not> connectgaps t)"
    using eq names each by simp
next
  assume a: "chart_wf data [p, p] [d1, d2] [Some (5::'v), None] \<and> d1 < d2"
  then have eq: "build_line_chart (Some data) =
    Inr (\<lparr>traces = [series [p, p] [d1, d2] [Some 5, None] p], annotations = []\<rparr>, [p])"
    using build_line_chart_wf [of data "[p, p]" "[d1, d2]" "[Some 5, None]"] by simp
  have pts: "sort (plan_points [p, p] [d1, d2] [Some (5::'v), None] p) = [(d1, 5), (d2, 0)]"
    using a by (simp add: plan_points_def less_eq_prod_def)
  show "\<exists>fig. build_line_chart (Some data) = Inr (fig, [p])
          \<and> traces fig = [Scatter p [d1, d2] [5, 0] False]"
    using eq pts by (simp add: series_def)
qed

text \<open>
  Claim C10. For a well-formed table with at least one row there is exactly one trace per
  distinct plan name; the trace of a plan has as many points as the input has rows for
  that plan, so observations of one plan with the same date (and even the same value) are
  all kept; and the points of a trace are in ascending order of the pair (date, value).
\<close>

theorem build_line_chart_traces:
  assumes "chart_wf data ps ds vs" and "ps \<noteq> []"
  shows "\<exists>fig plans. build_line_chart (Some data) = Inr (fig, plans)
      \<and> distinct (map sc_name (traces fig))
      \<and> set (map sc_name (traces fig)) = set ps
      \<and> length (traces fig) = card (set ps)
      \<and> (\<forall>t \<in> set (traces fig).
            length (sc_x t) = count_list ps (sc_name t)
            \<and> length (sc_y t) = count_list ps (sc_name t)
            \<and> mset (zip (sc_x t) (sc_y t)) = mset (plan_points ps ds vs (sc_name t))
            \<and> sorted (zip (sc_x t) (sc_y t)))"
proof -
  have len: "length ds = length ps" "length vs = length ps"
    using assms(1) by (simp_all add: chart_wf_def)
  have eq: "build_line_chart (Some data) =
    Inr (\<lparr>traces = map (series ps ds vs) (sorted_list_of_set (set ps)), annotations = []\<rparr>,
         sorted_list_of_set (set ps))"
    using assms by (rule build_line_chart_wf)
  have names: "map sc_name (map (series ps ds vs) (sorted_list_of_set (set ps)))
      = sorted_list_of_set (set ps)"
    by (simp add: series_simps comp_def)
  have each: "\<forall>t \<in> set (map (series ps ds vs) (sorted_list_of_set (set ps))).
      length (sc_x t) = count_list ps (sc_name t)
      \<and> length (sc_y t) = count_list ps (sc_name t)
      \<and> mset (zip (sc_x t) (sc_y t)) = mset (plan_points ps ds vs (sc_name t))
      \<and> sorted (zip (sc_x t) (sc_y t))"
    using len by (auto simp: series_simps zip_map_fst_snd length_plan_points)
  have card: "length (sorted_list_of_set (set ps)) = card (set ps)"
    by simp
  show ?thesis
    using eq names each card by (simp del: set_map)
qed


theorem build_line_chart_series_witness:
  "chart_wf \<lparr>App_Name = None, Plan_Name = Some [''b'', ''a'', ''b''],
       Reporting_Date = Some [3::nat, 1, 2],
       metric_cols = [(''metric_value'', [Some (5::int), None, Some 7])]\<rparr>
     [''b'', ''a'', ''b''] [3, 1, 2] [Some 5, None, Some 7]
   \<and> build_line_chart (Some \<lparr>App_Name = None, Plan_Name = Some [''b'', ''a'', ''b''],
       Reporting_Date = Some [3::nat, 1, 2],
       metric_cols = [(''metric_value'', [Some (5::int), None, Some 7])]\<rparr>)
     = Inr (\<lparr>traces = [Scatter ''a'' [1] [0] False, Scatter ''b'' [2, 3] [7, 5] False],
             annotations = []\<rparr>, [''a'', ''b''])"
proof -
  let ?D = "\<lparr>App_Name = None, Plan_Name = Some [''b'', ''a'', ''b''],
       Reporting_Date = Some [3::nat, 1, 2],
       metric_cols = [(''metric_value'', [Some (5::int), None, Some 7])]\<rparr>"
  have wf: "chart_wf ?D [''b'', ''a'', ''b''] [3, 1, 2] [Some 5, None, Some 7]"
    by (simp add: chart_wf_def)
  have ne: "[''b'', ''a'', ''b''] \<noteq> []"
    by simp
  from build_line_chart_series [of ?D "[''b'', ''a'', ''b'']" "[3, 1, 2]" "[Some 5, None, Some 7]"]
  have "\<exists>fig plans. build_line_chart (Some ?D) = Inr (fig, plans) \<and> annotations fig = []"
    using wf ne by blast
  moreover have "build_line_chart (Some ?D)
     = Inr (\<lparr>traces = [Scatter ''a'' [1] [0] False, Scatter ''b'' [2, 3] [7, 5] False],
             annotations = []\<rparr>, [''a'', ''b''])"
    by code_simp
  ultimately show ?thesis
    using wf by simp
qed

theorem build_line_chart_traces_witness:
  "chart_wf \<lparr>App_Name = None, Plan_Name = Some [''p'', ''p''],
       Reporting_Date = Some [1::nat, 1],
       metric_cols = [(''metric_value'', [Some (2::int), Some 2])]\<rparr>
     [''p'', ''p''] [1, 1] [Some 2, Some 2]
   \<and> (\<exists>fig plans. build_line_chart (Some \<lparr>App_Name = None, Plan_Name = Some [''p'', ''p''],
       Reporting_Date = Some [1::nat, 1],
       metric_cols = [(''metric_value'', [Some (2::int), Some 2])]\<rparr>) = Inr (fig, plans)
      \<and> length (traces fig) = card {''p''}
      \<and> (\<forall>t \<in> set (traces fig). length (sc_x t) = 2 \<and> length (sc_y t) = 2))"
proof -
  let ?D = "\<lparr>App_Name = None, Plan_Name = Some [''p'', ''p''],
       Reporting_Date = Some [1::nat, 1],
       metric_cols = [(''metric_value'', [Some (2::int), Some 2])]\<rparr>"
  have wf: "chart_wf ?D [''p'', ''p''] [1, 1] [Some 2, Some 2]"
    by (simp add: chart_wf_def)
  have ne: "[''p'', ''p''] \<noteq> []"
    by simp
  from build_line_chart_traces [OF wf ne]
  obtain fig plans where f: "build_line_chart (Some ?D) = Inr (fig, plans)"
    "set (map sc_name (traces fig)) = set [''p'', ''p'']"
    "length (traces fig) = card (set [''p'', ''p''])"
    "\<forall>t \<in> set (traces fig).
            length (sc_x t) = count_list [''p'', ''p''] (sc_name t)
            \<and> length (sc_y t) = count_list [''p'', ''p''] (sc_name t)"
    by blast
  from f(2) have "\<forall>t \<in> set (traces fig). sc_name t = ''p''"
    by auto
  with f(4) have "\<forall>t \<in> set (traces fig). length (sc_x t) = 2 \<and> length (sc_y t) = 2"
    by simp
  with f(1) f(3) wf show ?thesis
    by auto
qed

section \<open>Properties of the pivot table\<close>

lemma first_seen_fold_set:
  "set (fold (\<lambda>x acc. if x \<in> set acc then acc else acc @ [x]) xs acc) = set acc \<union> set xs"
  by (induction xs arbitrary: acc) auto

lemma first_seen_fold_distinct:
  "distinct acc \<Longrightarrow> distinct (fold (\<lambda>x acc. if x \<in> set acc then acc else acc @ [x]) xs acc)"
  by (induction xs arbitrary: acc) auto

lemma set_first_seen [simp]: "set (first_seen xs) = set xs"
  by (simp add: first_seen_def first_seen_fold_set)

lemma distinct_first_seen [simp]: "distinct (first_seen xs)"
  by (simp add: first_seen_def first_seen_fold_distinct)

lemma first_seen_snoc:
  "first_seen (xs @ [x]) = (if x \<in> set xs then first_seen xs else first_seen xs @ [x])"
  using set_first_seen [of xs] by (simp add: first_seen_def del: set_first_seen)

lemma sort_first_seen:
  "sort_key (\<lambda>x. (fst x, snd x)) (first_seen xs) = sorted_list_of_set (set xs)"
proof -
  have "sort_key (\<lambda>x. x) (first_seen xs) = sorted_list_of_set (set xs)"
    by (rule sorted_distinct_set_unique) simp_all
  then show ?thesis by simp
qed

lemma sort_first_seen_id: "sort (first_seen xs) = sorted_list_of_set (set xs)"
  by (rule sorted_distinct_set_unique) simp_all

lemma collect_combo_step:
  assumes wf: "pivot_wf pd apps plans dates" and k: "k < length dates"
  shows "collect_combo pd k (first_seen (take k (zip apps plans)), set (take k (zip apps plans)))
    = Inr (first_seen (take (Suc k) (zip apps plans)), set (take (Suc k) (zip apps plans)))"
  using assms
  by (auto simp: collect_combo_def getitem_def pivot_wf_def Let_def take_Suc_conv_app_nth
      first_seen_snoc)

lemma collect_combo_loop:
  assumes wf: "pivot_wf pd apps plans dates"
  shows "k \<le> length dates \<Longrightarrow>
    foldE (collect_combo pd) [0..<k] ([], {})
      = Inr (first_seen (take k (zip apps plans)), set (take k (zip apps plans)))"
proof (induction k)
  case 0
  show ?case by (simp add: first_seen_def)
next
  case (Suc k)
  then show ?case
    using collect_combo_step [OF wf, of k] by (simp add: foldE_snoc)
qed

lemma store_metric_loop:
  assumes "\<And>m col. map_of (metric_cols pd) m = Some col \<Longrightarrow> i < length col"
  shows "foldE (store_metric pd i) ms e =
    Inr (\<lambda>m. if m \<in> set ms
             then (case map_of (metric_cols pd) m of None \<Rightarrow> e m | Some col \<Rightarrow> Some (col ! i))
             else e m)"
proof (induction ms arbitrary: e)
  case Nil
  show ?case by simp
next
  case (Cons m ms)
  show ?case
  proof (cases "map_of (metric_cols pd) m")
    case None
    then have "store_metric pd i m e = Inr e"
      by (simp add: store_metric_def)
    then have "foldE (store_metric pd i) (m # ms) e = foldE (store_metric pd i) ms e"
      by simp
    also have "\<dots> = Inr (\<lambda>x. if x \<in> set (m # ms)
             then (case map_of (metric_cols pd) x of None \<Rightarrow> e x | Some col \<Rightarrow> Some (col ! i))
             else e x)"
      unfolding Cons.IH using None by (auto split: option.splits)
    finally show ?thesis .
  next
    case (Some col)
    then have "i < length col" by (rule assms)
    with Some have "store_metric pd i m e = Inr (e(m \<mapsto> col ! i))"
      by (simp add: store_metric_def getitem_def)
    then have "foldE (store_metric pd i) (m # ms) e
        = foldE (store_metric pd i) ms (e(m \<mapsto> col ! i))"
      by simp
    also have "\<dots> = Inr (\<lambda>x. if x \<in> set (m # ms)
             then (case map_of (metric_cols pd) x of None \<Rightarrow> e x | Some col \<Rightarrow> Some (col ! i))
             else e x)"
      unfolding Cons.IH using Some by (auto split: option.splits)
    finally show ?thesis .
  qed
qed

lemma wf_col_length:
  "pivot_wf pd apps plans dates \<Longrightarrow> map_of (metric_cols pd) m = Some col \<Longrightarrow>
   length col = length dates"
  by (auto simp: pivot_wf_def list_all_iff dest!: map_of_SomeD)

lemma last_row_Suc:
  "last_row apps plans dates (Suc k) key =
     (if (apps ! k, plans ! k, dates ! k) = key then Some k else last_row apps plans dates k key)"
  by (simp add: last_row_def)

lemma fill_lookup_step:
  assumes wf: "pivot_wf pd apps plans dates" and k: "k < length dates"
  shows "fill_lookup pd metrics k (lookup_upto pd metrics apps plans dates k)
    = Inr (lookup_upto pd metrics apps plans dates (Suc k))"
proof -
  let ?key = "(apps ! k, plans ! k, dates ! k)"
  let ?L = "lookup_upto pd metrics apps plans dates k"
  let ?L' = "if ?L ?key = None then ?L(?key \<mapsto> Map.empty) else ?L"
  have cols: "\<And>m col. map_of (metric_cols pd) m = Some col \<Longrightarrow> k < length col"
    using wf_col_length [OF wf] k by simp
  have entry: "\<exists>e. ?L' ?key = Some e \<and> (e = Map.empty \<or> (\<exists>j. e = entry_at pd metrics j))"
    by (auto simp: lookup_upto_def split: option.splits)
  then obtain e where e: "?L' ?key = Some e"
    and e_cases: "e = Map.empty \<or> (\<exists>j. e = entry_at pd metrics j)"
    by blast
  have stored: "foldE (store_metric pd k) metrics e = Inr (entry_at pd metrics k)"
    using e_cases
    by (auto simp: store_metric_loop [OF cols] entry_at_def intro!: ext split: option.splits)
  have upd: "?L'(?key \<mapsto> entry_at pd metrics k) = lookup_upto pd metrics apps plans dates (Suc k)"
    by (rule ext) (simp add: lookup_upto_def last_row_Suc)
  have gets: "getitem (App_Name pd) k = Inr (apps ! k)"
    "getitem (Plan_Name pd) k = Inr (plans ! k)"
    "getitem (Reporting_Date pd) k = Inr (dates ! k)"
    using wf k by (simp_all add: getitem_def pivot_wf_def)
  show ?thesis
    unfolding fill_lookup_def gets bindE_Inr Let_def e
    by (simp add: stored upd)
qed

lemma fill_lookup_loop:
  assumes wf: "pivot_wf pd apps plans dates"
  shows "k \<le> length dates \<Longrightarrow>
    foldE (fill_lookup pd metrics) [0..<k] Map.empty
      = Inr (lookup_upto pd metrics apps plans dates k)"
proof (induction k)
  case 0
  show ?case by (simp add: lookup_upto_def last_row_def)
next
  case (Suc k)
  then show ?case
    using fill_lookup_step [OF wf, of k] by (simp add: foldE_snoc)
qed


lemma raw_value_lookup_upto:
  "m \<in> set metrics \<Longrightarrow>
   raw_value (lookup_upto pd metrics apps plans dates (length dates)) key m
     = last_value pd apps plans dates key m"
  by (simp add: raw_value_def lookup_upto_def last_value_def entry_at_def split: option.splits)

lemma dict_set_fresh: "k \<notin> fst ` set kvs \<Longrightarrow> dict_set kvs k v = kvs @ [(k, v)]"
  by (induction kvs) auto

lemma fold_dict_set_fresh:
  "distinct (map f ds) \<Longrightarrow> \<forall>d \<in> set ds. f d \<notin> fst ` set row \<Longrightarrow>
   fold (\<lambda>d row. dict_set row (f d) (g d)) ds row = row @ map (\<lambda>d. (f d, g d)) ds"
proof (induction ds arbitrary: row)
  case Nil
  show ?case by simp
next
  case (Cons d ds)
  have fresh: "f d \<notin> fst ` set row"
    using Cons.prems(2) by simp
  have "fold (\<lambda>d row. dict_set row (f d) (g d)) ds (row @ [(f d, g d)])
      = (row @ [(f d, g d)]) @ map (\<lambda>d. (f d, g d)) ds"
  proof (intro Cons.IH)
    show "distinct (map f ds)"
      using Cons.prems(1) by simp
    have "\<forall>x \<in> set ds. f x \<noteq> f d"
      using Cons.prems(1) by (auto simp: image_iff)
    then show "\<forall>x \<in> set ds. f x \<notin> fst ` set (row @ [(f d, g d)])"
      using Cons.prems(2) by auto
  qed
  then show ?case
    by (simp add: dict_set_fresh [OF fresh])
qed


lemma make_row_pivot_row:
  assumes inj: "inj_on date_label (set dates)"
    and res: "\<forall>d \<in> set dates. date_label d \<notin> {''App'', ''Plan'', ''Metric''}"
    and m: "m \<in> set metrics"
  shows "make_row py cfg date_label (lookup_upto pd metrics apps plans dates (length dates)) cb
      (rev (sorted_list_of_set (set dates))) a p m
    = pivot_row py cfg date_label pd apps plans dates cb a p m"
proof -
  have d: "distinct (map date_label (rev (sorted_list_of_set (set dates))))"
    using inj by (simp add: distinct_map)
  have r: "\<forall>d \<in> set (rev (sorted_list_of_set (set dates))).
      date_label d \<notin> fst ` set [(''App'', Str a :: 'b cell), (''Plan'', Str p),
        (''Metric'', Str (get_display_metric_name cfg m))]"
    using res by auto
  show ?thesis
    unfolding make_row_def pivot_row_def
    by (simp only: fold_dict_set_fresh [OF d r] raw_value_lookup_upto [OF m])
qed

lemma fold_append_rows: "fold (\<lambda>m rows. rows @ [h m]) ms acc = acc @ map h ms"
  by (induction ms arbitrary: acc) auto

lemma fold_rows_concat:
  "fold (\<lambda>(a, p) rows. fold (\<lambda>m rows. rows @ [g a p m]) ms rows) xs acc
     = acc @ concat (map (\<lambda>(a, p). map (g a p) ms) xs)"
  by (induction xs arbitrary: acc) (auto simp: fold_append_rows)

lemma process_pivot_data_rows:
  assumes wf: "pivot_wf pd apps plans dates" and ne: "dates \<noteq> []"
  shows "process_pivot_data py cfg date_label (Some pd) metrics cb
    = Inr (Some (DataFrame
        (concat (map (\<lambda>(a, p).
            map (make_row py cfg date_label
                   (lookup_upto pd metrics apps plans dates (length dates)) cb
                   (rev (sorted_list_of_set (set dates))) a p) metrics)
          (sorted_list_of_set (set (zip apps plans)))))))"
proof -
  have nonempty: "\<not> dict_empty pd"
    using wf by (simp add: dict_empty_def pivot_wf_def)
  have cols: "Reporting_Date pd = Some dates" "App_Name pd = Some apps"
    "length apps = length dates" "length plans = length dates"
    using wf by (simp_all add: pivot_wf_def)
  have combos: "foldE (collect_combo pd) [0..<length dates] ([], {})
      = Inr (first_seen (zip apps plans), set (zip apps plans))"
    using collect_combo_loop [OF wf, of "length dates"] cols by simp
  have lookup: "foldE (fill_lookup pd metrics) [0..<length dates] Map.empty
      = Inr (lookup_upto pd metrics apps plans dates (length dates))"
    using fill_lookup_loop [OF wf, of "length dates"] by simp
  show ?thesis
    using nonempty ne
    by (simp add: process_pivot_data_def cols combos lookup sort_first_seen_id
        fold_rows_concat Let_def)
qed

lemma process_pivot_data_wf:
  assumes wf: "pivot_wf pd apps plans dates" and ne: "dates \<noteq> []"
    and inj: "inj_on date_label (set dates)"
    and res: "\<forall>d \<in> set dates. date_label d \<notin> {''App'', ''Plan'', ''Metric''}"
  shows "process_pivot_data py cfg date_label (Some pd) metrics cb
    = Inr (Some (DataFrame (pivot_rows py cfg date_label pd apps plans dates metrics cb)))"
proof -
  have "concat (map (\<lambda>(a, p).
            map (make_row py cfg date_label
                   (lookup_upto pd metrics apps plans dates (length dates)) cb
                   (rev (sorted_list_of_set (set dates))) a p) metrics)
          (sorted_list_of_set (set (zip apps plans))))
      = pivot_rows py cfg date_label pd apps plans dates metrics cb"
    unfolding pivot_rows_def
    by (auto intro!: arg_cong [where f = concat] simp: make_row_pivot_row [OF inj res])
  then show ?thesis
    by (simp add: process_pivot_data_rows [OF wf ne])
qed

lemma records_DataFrame [simp]: "records (DataFrame rows) = rows"
  by (simp add: DataFrame_def)

lemma length_concat_blocks:
  "length (concat (map (\<lambda>x. map (g x) ms) xs)) = length xs * length ms"
  by (induction xs) auto

lemma nth_concat_blocks:
  "i < length xs \<Longrightarrow> j < length ms \<Longrightarrow>
   concat (map (\<lambda>x. map (g x) ms) xs) ! (i * length ms + j) = g (xs ! i) (ms ! j)"
proof (induction xs arbitrary: i)
  case Nil
  then show ?case by simp
next
  case (Cons x xs)
  show ?case
  proof (cases i)
    case 0
    with Cons.prems show ?thesis by (simp add: nth_append)
  next
    case (Suc i')
    with Cons.prems have "i' < length xs" by simp
    from Cons.IH [OF this Cons.prems(2)] Suc show ?thesis
      by (simp add: nth_append add.assoc)
  qed
qed

lemma pivot_rows_blocks:
  "pivot_rows py cfg date_label pd apps plans dates metrics cb
     = concat (map (\<lambda>x. map (\<lambda>m. pivot_row py cfg date_label pd apps plans dates cb
                                      (fst x) (snd x) m) metrics)
                 (sorted_list_of_set (set (zip apps plans))))"
  by (simp add: pivot_rows_def case_prod_unfold)

lemma format_metric_value_None [simp]: "format_metric_value py cfg None m cb = None"
  by (simp add: format_metric_value_def)

lemma last_value_absent:
  "map_of (metric_cols pd) m = None \<Longrightarrow> last_value pd apps plans dates key m = None"
  by (simp add: last_value_def split: option.splits)

lemma keys_pivot_row:
  "map fst (pivot_row py cfg date_label pd apps plans dates cb a p m)
     = [''App'', ''Plan'', ''Metric''] @ map date_label (rev (sorted_list_of_set (set dates)))"
  by (simp add: pivot_row_def comp_def)

lemma last_row_last:
  "i < k \<Longrightarrow>
   \<forall>j < k. i < j \<longrightarrow> (apps ! j, plans ! j, dates ! j) \<noteq> (apps ! i, plans ! i, dates ! i) \<Longrightarrow>
   last_row apps plans dates k (apps ! i, plans ! i, dates ! i) = Some i"
proof (induction k)
  case 0
  then show ?case by simp
next
  case (Suc k)
  show ?case
  proof (cases "i = k")
    case True
    then show ?thesis by (simp add: last_row_Suc)
  next
    case False
    with Suc.prems have "i < k" by simp
    moreover have "\<forall>j < k. i < j \<longrightarrow>
        (apps ! j, plans ! j, dates ! j) \<noteq> (apps ! i, plans ! i, dates ! i)"
      using Suc.prems(2) by simp
    ultimately have "last_row apps plans dates k (apps ! i, plans ! i, dates ! i) = Some i"
      by (rule Suc.IH)
    moreover have "(apps ! k, plans ! k, dates ! k) \<noteq> (apps ! i, plans ! i, dates ! i)"
      using Suc.prems(2) \<open>i < k\<close> by simp
    ultimately show ?thesis
      by (auto simp: last_row_Suc)
  qed
qed

lemma map_of_labelled:
  "inj_on f (set ds) \<Longrightarrow> d0 \<in> set ds \<Longrightarrow>
   map_of (map (\<lambda>d. (f d, g d)) ds) (f d0) = Some (g d0)"
  by (induction ds) (auto simp: inj_on_def)

lemma map_of_pivot_row:
  assumes inj: "inj_on date_label (set dates)"
    and res: "\<forall>d \<in> set dates. date_label d \<notin> {''App'', ''Plan'', ''Metric''}"
    and d: "d \<in> set dates"
  shows "map_of (pivot_row py cfg date_label pd apps plans dates cb a p m) (date_label d)
    = Some (Num (format_metric_value py cfg (last_value pd apps plans dates (a, p, d) m) m cb))"
proof -
  have "inj_on date_label (set (rev (sorted_list_of_set (set dates))))"
    using inj by simp
  moreover have "d \<in> set (rev (sorted_list_of_set (set dates)))"
    using d by simp
  ultimately have "map_of (map (\<lambda>d. (date_label d,
        Num (format_metric_value py cfg (last_value pd apps plans dates (a, p, d) m) m cb)))
      (rev (sorted_list_of_set (set dates)))) (date_label d)
    = Some (Num (format_metric_value py cfg (last_value pd apps plans dates (a, p, d) m) m cb))"
    by (rule map_of_labelled)
  moreover have "date_label d \<noteq> ''App''" "date_label d \<noteq> ''Plan''" "date_label d \<noteq> ''Metric''"
    using res d by auto
  ultimately show ?thesis
    by (simp add: pivot_row_def)
qed

lemma columns_same_keys:
  "\<forall>r \<in> set rows. set (map fst r) \<subseteq> set acc \<Longrightarrow>
   fold (\<lambda>r acc. acc @ filter (\<lambda>k. k \<notin> set acc) (map fst r)) rows acc = acc"
proof (induction rows arbitrary: acc)
  case Nil
  show ?case by simp
next
  case (Cons r rows)
  have "filter (\<lambda>k. k \<notin> set acc) (map fst r) = []"
    using Cons.prems by (auto simp: filter_empty_conv)
  then show ?case
    using Cons by simp
qed

lemma columns_DataFrame:
  assumes "rows \<noteq> []" and "\<forall>r \<in> set rows. map fst r = ks"
  shows "columns (DataFrame rows) = ks"
proof -
  obtain r rs where rows: "rows = r # rs"
    using assms(1) by (cases rows) auto
  have r: "map fst r = ks"
    using assms(2) rows by simp
  have "fold (\<lambda>r acc. acc @ filter (\<lambda>k. k \<notin> set acc) (map fst r)) rs ks = ks"
    using assms(2) rows by (intro columns_same_keys) auto
  then show ?thesis
    by (simp add: DataFrame_def rows r)
qed

lemma bindE_Inr_NoneD:
  "bindE m f = Inr None \<Longrightarrow> \<exists>x. m = Inr x \<and> f x = Inr None"
  by (cases m) simp_all

lemma process_pivot_data_None_iff:
  "process_pivot_data py cfg date_label pivot_data metrics cb = Inr None \<longleftrightarrow>
     pivot_data = None
     \<or> (\<exists>pd. pivot_data = Some pd
           \<and> (dict_empty pd \<or> Reporting_Date pd = None \<or> Reporting_Date pd = Some []))"
  by (auto simp: process_pivot_data_def Let_def split: option.splits dest!: bindE_Inr_NoneD)

subsection \<open>The date label of calendar dates\<close>

lemma digit_inj: "a < 10 \<Longrightarrow> b < 10 \<Longrightarrow> digit a = digit b \<Longrightarrow> a = b"
proof -
  assume a: "a < 10" and b: "b < 10" and eq: "digit a = digit b"
  from eq have "(of_char (digit a) :: nat) = of_char (digit b)"
    by simp
  then have "(48 + a) mod 256 = (48 + b) mod 256"
    by (simp add: digit_def)
  with a b show "a = b"
    by simp
qed

lemma div_mod_10_eq: "(a::nat) div 10 = b div 10 \<Longrightarrow> a mod 10 = b mod 10 \<Longrightarrow> a = b"
  by (metis div_mult_mod_eq)

lemma div_div_10:
  "(n::nat) div 100 div 10 = n div 1000" "(n::nat) div 10 div 10 = n div 100"
  by (simp_all add: div_mult2_eq [symmetric])

lemma strftime_mdY_inj:
  assumes "valid_date a" and "valid_date b" and "strftime_mdY a = strftime_mdY b"
  shows "a = b"
proof -
  obtain y m d where a: "a = (y, m, d)" by (cases a) auto
  obtain y' m' d' where b: "b = (y', m', d')" by (cases b) auto
  have va: "1000 \<le> y" "y \<le> 9999" "m \<le> 12" "d \<le> 31"
    using assms(1) by (simp_all add: valid_date_def a)
  have vb: "1000 \<le> y'" "y' \<le> 9999" "m' \<le> 12" "d' \<le> 31"
    using assms(2) by (simp_all add: valid_date_def b)
  have eqs: "digit (m div 10) = digit (m' div 10)" "digit (m mod 10) = digit (m' mod 10)"
    "digit (d div 10) = digit (d' div 10)" "digit (d mod 10) = digit (d' mod 10)"
    "digit (y div 1000) = digit (y' div 1000)"
    "digit (y div 100 mod 10) = digit (y' div 100 mod 10)"
    "digit (y div 10 mod 10) = digit (y' div 10 mod 10)"
    "digit (y mod 10) = digit (y' mod 10)"
    using assms(3) by (simp_all add: strftime_mdY_def a b)
  have "m div 10 = m' div 10" "m mod 10 = m' mod 10"
    using eqs(1,2) va vb by (auto intro!: digit_inj)
  then have m: "m = m'"
    by (rule div_mod_10_eq)
  have "d div 10 = d' div 10" "d mod 10 = d' mod 10"
    using eqs(3,4) va vb by (auto intro!: digit_inj)
  then have d: "d = d'"
    by (rule div_mod_10_eq)
  have "y div 1000 < 10" "y' div 1000 < 10"
    using va vb by simp_all
  then have y3: "y div 1000 = y' div 1000"
    using eqs(5) by (auto intro!: digit_inj)
  have y2: "y div 100 mod 10 = y' div 100 mod 10"
    using eqs(6) by (auto intro!: digit_inj)
  have y1: "y div 10 mod 10 = y' div 10 mod 10"
    using eqs(7) by (auto intro!: digit_inj)
  have y0: "y mod 10 = y' mod 10"
    using eqs(8) by (auto intro!: digit_inj)
  have "y div 100 div 10 = y' div 100 div 10"
    using y3 by (simp add: div_div_10)
  then have "y div 100 = y' div 100"
    using y2 by (rule div_mod_10_eq)
  then have "y div 10 div 10 = y' div 10 div 10"
    by (simp add: div_div_10)
  then have "y div 10 = y' div 10"
    using y1 by (rule div_mod_10_eq)
  then have "y = y'"
    using y0 by (rule div_mod_10_eq)
  with m d show ?thesis
    by (simp add: a b)
qed

lemma strftime_mdY_inj_on: "\<forall>d \<in> S. valid_date d \<Longrightarrow> inj_on strftime_mdY S"
  by (rule inj_onI) (blast intro: strftime_mdY_inj)

lemma strftime_mdY_not_reserved: "strftime_mdY d \<notin> {''App'', ''Plan'', ''Metric''}"
  by (cases d) (simp add: strftime_mdY_def)

subsection \<open>Rows of the pivot\<close>

lemma zip_nonempty_pairs:
  assumes "pivot_wf pd apps plans dates" and "i < length dates"
  shows "(apps ! i, plans ! i) \<in> set (zip apps plans)"
proof -
  have "i < length (zip apps plans)"
    using assms by (simp add: pivot_wf_def)
  then have "zip apps plans ! i \<in> set (zip apps plans)"
    by (rule nth_mem)
  then show ?thesis
    using assms by (simp add: pivot_wf_def)
qed

lemma pivot_row_in_rows:
  "(a, p) \<in> set (zip apps plans) \<Longrightarrow> m \<in> set metrics \<Longrightarrow>
   pivot_row py cfg date_label pd apps plans dates cb a p m
     \<in> set (pivot_rows py cfg date_label pd apps plans dates metrics cb)"
  by (force simp: pivot_rows_def)

lemma pivot_rows_keys:
  "r \<in> set (pivot_rows py cfg date_label pd apps plans dates metrics cb) \<Longrightarrow>
   map fst r = [''App'', ''Plan'', ''Metric'']
     @ map date_label (rev (sorted_list_of_set (set dates)))"
  by (auto simp: pivot_rows_def keys_pivot_row)

lemma length_pivot_rows:
  "length (pivot_rows py cfg date_label pd apps plans dates metrics cb)
     = card (set (zip apps plans)) * length metrics"
  by (simp add: pivot_rows_blocks length_concat_blocks)

subsection \<open>The two concrete tables\<close>

lemma example_pivot_wf:
  "pivot_wf example_pivot [''A'', ''A'', ''A'', ''A''] [''P2'', ''P1'', ''P2'', ''P1'']
     [(2024, 1, 1), (2024, 1, 1), (2024, 2, 1), (2024, 2, 1)]"
  by (simp add: pivot_wf_def example_pivot_def)

lemma duplicate_pivot_wf:
  "pivot_wf duplicate_pivot [''A'', ''A''] [''P'', ''P''] [(2024, 1, 1), (2024, 1, 1)]"
  by (simp add: pivot_wf_def duplicate_pivot_def)

lemma example_dates_inj:
  "inj_on strftime_mdY (set [(2024, 1, 1), (2024, 1, 1), (2024, 2, 1), (2024, 2, 1)])"
  by (rule strftime_mdY_inj_on) (simp add: valid_date_def)

lemma example_dates_res:
  "\<forall>d \<in> set [(2024, 1, 1), (2024, 1, 1), (2024, 2, 1), (2024::nat, 2::nat, 1::nat)].
     strftime_mdY d \<notin> {''App'', ''Plan'', ''Metric''}"
  using strftime_mdY_not_reserved by blast

lemma example_result:
  "process_pivot_data whole_numbers Map.empty strftime_mdY (Some example_pivot) [''M''] False
     = Inr (Some \<lparr>columns = [''App'', ''Plan'', ''Metric'', ''02/01/2024'', ''01/01/2024''],
          records =
            [[(''App'', Str ''A''), (''Plan'', Str ''P1''), (''Metric'', Str ''M''),
              (''02/01/2024'', Num None), (''01/01/2024'', Num (Some (PyFloat 2)))],
             [(''App'', Str ''A''), (''Plan'', Str ''P2''), (''Metric'', Str ''M''),
              (''02/01/2024'', Num (Some (PyFloat 3))),
              (''01/01/2024'', Num (Some (PyFloat 1)))]]\<rparr>)"
  by code_simp

lemma duplicate_result:
  "process_pivot_data whole_numbers Map.empty strftime_mdY (Some duplicate_pivot) [''M''] False
     = Inr (Some \<lparr>columns = [''App'', ''Plan'', ''Metric'', ''01/01/2024''],
          records =
            [[(''App'', Str ''A''), (''Plan'', Str ''P''), (''Metric'', Str ''M''),
              (''01/01/2024'', Num (Some (PyFloat 2)))]]\<rparr>)"
  by code_simp

lemma first_formatted:
  "format_metric_value whole_numbers Map.empty (Some 1) ''M'' False = Some (PyFloat 1)"
  by code_simp

lemma no_metric_result:
  "process_pivot_data whole_numbers Map.empty strftime_mdY (Some example_pivot) [] False
     = Inr (Some \<lparr>columns = [], records = []\<rparr>)"
  by code_simp

subsection \<open>The claims about the pivot\<close>

text \<open>
  Claim C1. For a well-formed table with at least one row (and date labels that are
  distinct for distinct dates and differ from the three fixed column names, as those of
  calendar dates are) the pivot is a data frame whose rows are: for each distinct pair of
  application and plan, the pairs in ascending lexicographic order, one row for each
  selected metric in the order of the selection, the rows of one pair next to each other,
  so \<open>card pairs * length metrics\<close> rows in all. Every row has the keys \<^verbatim>\<open>App\<close>, \<^verbatim>\<open>Plan\<close>,
  \<^verbatim>\<open>Metric\<close> and then the labels of the distinct dates in descending order. A metric
  that is no column of the table still has its row, with \<^verbatim>\<open>None\<close> in every date cell.
\<close>

theorem process_pivot_data_rows_order:
  assumes "pivot_wf pd apps plans dates" and "dates \<noteq> []"
    and "inj_on date_label (set dates)"
    and "\<forall>d \<in> set dates. date_label d \<notin> {''App'', ''Plan'', ''Metric''}"
  shows "\<exists>df. process_pivot_data py cfg date_label (Some pd) metrics cb = Inr (Some df)
    \<and> records df =
        concat (map (\<lambda>(a, p). map (pivot_row py cfg date_label pd apps plans dates cb a p) metrics)
                  (sorted_list_of_set (set (zip apps plans))))
    \<and> length (records df) = card (set (zip apps plans)) * length metrics
    \<and> (\<forall>i < card (set (zip apps plans)). \<forall>j < length metrics.
          records df ! (i * length metrics + j)
            = pivot_row py cfg date_label pd apps plans dates cb
                (fst (sorted_list_of_set (set (zip apps plans)) ! i))
                (snd (sorted_list_of_set (set (zip apps plans)) ! i)) (metrics ! j))
    \<and> (\<forall>r \<in> set (records df).
          map fst r = [''App'', ''Plan'', ''Metric'']
            @ map date_label (rev (sorted_list_of_set (set dates))))
    \<and> (\<forall>a p m. map_of (metric_cols pd) m = None \<longrightarrow>
          pivot_row py cfg date_label pd apps plans dates cb a p m
            = [(''App'', Str a), (''Plan'', Str p),
               (''Metric'', Str (get_display_metric_name cfg m))]
              @ map (\<lambda>d. (date_label d, Num None)) (rev (sorted_list_of_set (set dates))))"
proof -
  let ?rows = "pivot_rows py cfg date_label pd apps plans dates metrics cb"
  have eq: "process_pivot_data py cfg date_label (Some pd) metrics cb
      = Inr (Some (DataFrame ?rows))"
    using assms by (rule process_pivot_data_wf)
  have nth: "\<forall>i < card (set (zip apps plans)). \<forall>j < length metrics.
      ?rows ! (i * length metrics + j)
        = pivot_row py cfg date_label pd apps plans dates cb
            (fst (sorted_list_of_set (set (zip apps plans)) ! i))
            (snd (sorted_list_of_set (set (zip apps plans)) ! i)) (metrics ! j)"
    by (simp add: pivot_rows_blocks nth_concat_blocks)
  have keys: "\<forall>r \<in> set ?rows.
      map fst r = [''App'', ''Plan'', ''Metric'']
        @ map date_label (rev (sorted_list_of_set (set dates)))"
    by (simp add: pivot_rows_keys)
  have absent: "\<forall>a p m. map_of (metric_cols pd) m = None \<longrightarrow>
      pivot_row py cfg date_label pd apps plans dates cb a p m
        = [(''App'', Str a), (''Plan'', Str p),
           (''Metric'', Str (get_display_metric_name cfg m))]
          @ map (\<lambda>d. (date_label d, Num None)) (rev (sorted_list_of_set (set dates)))"
    by (simp add: pivot_row_def last_value_absent)
  have rows: "?rows =
      concat (map (\<lambda>(a, p). map (pivot_row py cfg date_label pd apps plans dates cb a p) metrics)
                (sorted_list_of_set (set (zip apps plans))))"
    by (simp add: pivot_rows_def)
  show ?thesis
    unfolding eq using nth keys absent rows length_pivot_rows [of py cfg date_label pd apps plans dates metrics cb]
    by (intro exI [of _ "DataFrame ?rows"]) (simp only: records_DataFrame simp_thms)
qed

theorem process_pivot_data_rows_order_witness:
  "pivot_wf example_pivot [''A'', ''A'', ''A'', ''A''] [''P2'', ''P1'', ''P2'', ''P1'']
     [(2024, 1, 1), (2024, 1, 1), (2024, 2, 1), (2024, 2, 1)]
   \<and> inj_on strftime_mdY (set [(2024, 1, 1), (2024, 1, 1), (2024, 2, 1), (2024, 2, 1)])
   \<and> (\<exists>df. process_pivot_data whole_numbers Map.empty strftime_mdY (Some example_pivot)
               [''M''] False = Inr (Some df)
          \<and> records df =
            [[(''App'', Str ''A''), (''Plan'', Str ''P1''), (''Metric'', Str ''M''),
              (''02/01/2024'', Num None), (''01/01/2024'', Num (Some (PyFloat 2)))],
             [(''App'', Str ''A''), (''Plan'', Str ''P2''), (''Metric'', Str ''M''),
              (''02/01/2024'', Num (Some (PyFloat 3))),
              (''01/01/2024'', Num (Some (PyFloat 1)))]]
          \<and> (\<forall>r \<in> set (records df).
                map fst r = [''App'', ''Plan'', ''Metric'']
                  @ map strftime_mdY (rev (sorted_list_of_set
                      (set [(2024, 1, 1), (2024, 1, 1), (2024, 2, 1), (2024, 2, 1)])))))"
proof -
  have ne: "[(2024::nat, 1::nat, 1::nat), (2024, 1, 1), (2024, 2, 1), (2024, 2, 1)] \<noteq> []"
    by simp
  from process_pivot_data_rows_order
    [OF example_pivot_wf ne example_dates_inj example_dates_res,
      of whole_numbers Map.empty "[''M'']" False]
  obtain df where df:
    "process_pivot_data whole_numbers Map.empty strftime_mdY (Some example_pivot)
        [''M''] False = Inr (Some df)"
    "\<forall>r \<in> set (records df).
        map fst r = [''App'', ''Plan'', ''Metric'']
          @ map strftime_mdY (rev (sorted_list_of_set
              (set [(2024, 1, 1), (2024, 1, 1), (2024, 2, 1), (2024, 2, 1)])))"
    by blast
  from df(1) have "records df =
            [[(''App'', Str ''A''), (''Plan'', Str ''P1''), (''Metric'', Str ''M''),
              (''02/01/2024'', Num None), (''01/01/2024'', Num (Some (PyFloat 2)))],
             [(''App'', Str ''A''), (''Plan'', Str ''P2''), (''Metric'', Str ''M''),
              (''02/01/2024'', Num (Some (PyFloat 3))),
              (''01/01/2024'', Num (Some (PyFloat 1)))]]"
    unfolding example_result by auto
  with df example_pivot_wf example_dates_inj show ?thesis
    by blast
qed

text \<open>
  Claim C2, as the code has it. Rows with the same application, plan and date are not an
  error, but it is the last of them that counts: every row assigns
  \<^verbatim>\<open>lookup[key][metric]\<close> anew, so for the last row \<open>i\<close> that bears a key and every
  selected metric that is a column of the table, the row of this application, plan and
  metric is in the output and its cell under the label of the date is the formatted value
  of the metric in row \<open>i\<close>. The table \<open>duplicate_pivot\<close> shows that the first row does
  not win: its cell is formatted from the value 2 of the second row, not from the value 1
  of the first.
\<close>

theorem process_pivot_data_last_wins:
  assumes "pivot_wf pd apps plans dates" and "dates \<noteq> []"
    and "inj_on date_label (set dates)"
    and "\<forall>d \<in> set dates. date_label d \<notin> {''App'', ''Plan'', ''Metric''}"
  shows "\<exists>df. process_pivot_data py cfg date_label (Some pd) metrics cb = Inr (Some df)
    \<and> records df = pivot_rows py cfg date_label pd apps plans dates metrics cb
    \<and> (\<forall>i < length dates.
          (\<forall>j < length dates. i < j \<longrightarrow>
              (apps ! j, plans ! j, dates ! j) \<noteq> (apps ! i, plans ! i, dates ! i)) \<longrightarrow>
          (\<forall>m \<in> set metrics. \<forall>col. map_of (metric_cols pd) m = Some col \<longrightarrow>
              pivot_row py cfg date_label pd apps plans dates cb (apps ! i) (plans ! i) m
                \<in> set (records df)
              \<and> map_of (pivot_row py cfg date_label pd apps plans dates cb (apps ! i) (plans ! i) m)
                    (date_label (dates ! i))
                  = Some (Num (format_metric_value py cfg (col ! i) m cb))))"
proof -
  let ?rows = "pivot_rows py cfg date_label pd apps plans dates metrics cb"
  have eq: "process_pivot_data py cfg date_label (Some pd) metrics cb
      = Inr (Some (DataFrame ?rows))"
    using assms by (rule process_pivot_data_wf)
  have cells: "pivot_row py cfg date_label pd apps plans dates cb (apps ! i) (plans ! i) m
        \<in> set ?rows
      \<and> map_of (pivot_row py cfg date_label pd apps plans dates cb (apps ! i) (plans ! i) m)
            (date_label (dates ! i))
          = Some (Num (format_metric_value py cfg (col ! i) m cb))"
    if i: "i < length dates"
      and last: "\<forall>j < length dates. i < j \<longrightarrow>
        (apps ! j, plans ! j, dates ! j) \<noteq> (apps ! i, plans ! i, dates ! i)"
      and m: "m \<in> set metrics" and col: "map_of (metric_cols pd) m = Some col"
    for i m col
  proof
    show "pivot_row py cfg date_label pd apps plans dates cb (apps ! i) (plans ! i) m \<in> set ?rows"
      using zip_nonempty_pairs [OF assms(1) i] m by (rule pivot_row_in_rows)
  next
    have "last_row apps plans dates (length dates) (apps ! i, plans ! i, dates ! i) = Some i"
      using i last by (rule last_row_last)
    then have "last_value pd apps plans dates (apps ! i, plans ! i, dates ! i) m = col ! i"
      using col by (simp add: last_value_def)
    moreover have "dates ! i \<in> set dates"
      using i by simp
    ultimately show "map_of (pivot_row py cfg date_label pd apps plans dates cb
          (apps ! i) (plans ! i) m) (date_label (dates ! i))
        = Some (Num (format_metric_value py cfg (col ! i) m cb))"
      using map_of_pivot_row [OF assms(3) assms(4), of "dates ! i" py cfg pd apps plans cb
          "apps ! i" "plans ! i" m]
      by simp
  qed
  show ?thesis
    unfolding eq using cells
    by (intro exI [of _ "DataFrame ?rows"]) (simp only: records_DataFrame simp_thms, blast)
qed

theorem process_pivot_data_last_wins_witness:
  "pivot_wf duplicate_pivot [''A'', ''A''] [''P'', ''P''] [(2024, 1, 1), (2024, 1, 1)]
   \<and> inj_on strftime_mdY (set [(2024, 1, 1), (2024, 1, 1)])
   \<and> map_of (pivot_row whole_numbers Map.empty strftime_mdY duplicate_pivot
        [''A'', ''A''] [''P'', ''P''] [(2024, 1, 1), (2024, 1, 1)] False ''A'' ''P'' ''M'')
       (strftime_mdY (2024, 1, 1))
     = Some (Num (format_metric_value whole_numbers Map.empty (Some 2) ''M'' False))"
proof -
  have ne: "[(2024::nat, 1::nat, 1::nat), (2024, 1, 1)] \<noteq> []"
    by simp
  have inj: "inj_on strftime_mdY (set [(2024, 1, 1), (2024, 1, 1)])"
    by (rule strftime_mdY_inj_on) (simp add: valid_date_def)
  have res: "\<forall>d \<in> set [(2024, 1, 1), (2024::nat, 1::nat, 1::nat)].
      strftime_mdY d \<notin> {''App'', ''Plan'', ''Metric''}"
    using strftime_mdY_not_reserved by blast
  from process_pivot_data_last_wins [OF duplicate_pivot_wf ne inj res,
      of whole_numbers Map.empty "[''M'']" False]
  have cells: "\<forall>i < length [(2024::nat, 1::nat, 1::nat), (2024, 1, 1)].
          (\<forall>j < length [(2024::nat, 1::nat, 1::nat), (2024, 1, 1)]. i < j \<longrightarrow>
              ([''A'', ''A''] ! j, [''P'', ''P''] ! j, [(2024::nat, 1::nat, 1::nat), (2024, 1, 1)] ! j)
                \<noteq> ([''A'', ''A''] ! i, [''P'', ''P''] ! i, [(2024, 1, 1), (2024, 1, 1)] ! i)) \<longrightarrow>
          (\<forall>m \<in> set [''M'']. \<forall>col. map_of (metric_cols duplicate_pivot) m = Some col \<longrightarrow>
              map_of (pivot_row whole_numbers Map.empty strftime_mdY duplicate_pivot
                    [''A'', ''A''] [''P'', ''P''] [(2024, 1, 1), (2024, 1, 1)] False
                    ([''A'', ''A''] ! i) ([''P'', ''P''] ! i) m)
                  (strftime_mdY ([(2024, 1, 1), (2024, 1, 1)] ! i))
                = Some (Num (format_metric_value whole_numbers Map.empty (col ! i) m False)))"
    by blast
  have col: "map_of (metric_cols duplicate_pivot) ''M'' = Some [Some 1, Some 2]"
    by (simp add: duplicate_pivot_def)
  from cells [rule_format, of 1 "''M''" "[Some 1, Some 2]"] col
  have "map_of (pivot_row whole_numbers Map.empty strftime_mdY duplicate_pivot
        [''A'', ''A''] [''P'', ''P''] [(2024, 1, 1), (2024, 1, 1)] False ''A'' ''P'' ''M'')
       (strftime_mdY (2024, 1, 1))
     = Some (Num (format_metric_value whole_numbers Map.empty (Some 2) ''M'' False))"
    by simp
  with duplicate_pivot_wf inj show ?thesis
    by blast
qed

theorem process_pivot_data_first_wins_counterexample:
  "process_pivot_data whole_numbers Map.empty strftime_mdY (Some duplicate_pivot) [''M''] False
     = Inr (Some \<lparr>columns = [''App'', ''Plan'', ''Metric'', ''01/01/2024''],
          records =
            [[(''App'', Str ''A''), (''Plan'', Str ''P''), (''Metric'', Str ''M''),
              (''01/01/2024'', Num (Some (PyFloat 2)))]]\<rparr>)
   \<and> map_of (metric_cols duplicate_pivot) ''M'' = Some [Some 1, Some 2]
   \<and> format_metric_value whole_numbers Map.empty (Some 1) ''M'' False = Some (PyFloat 1)
   \<and> Num (Some (PyFloat 2))
       \<noteq> Num (format_metric_value whole_numbers Map.empty (Some 1) ''M'' False)"
  by (simp add: duplicate_result first_formatted) (simp add: duplicate_pivot_def)

text \<open>
  Claim C3. The result is \<^verbatim>\<open>None\<close> exactly when the argument is \<^verbatim>\<open>None\<close>, an empty
  dictionary, a dictionary without the \<^verbatim>\<open>Reporting_Date\<close> column or one whose
  \<^verbatim>\<open>Reporting_Date\<close> column is empty (this holds for every argument, also a malformed
  one, on which the function raises). On every other well-formed table the result is a
  data frame, with \<open>card pairs * length metrics\<close> rows.
\<close>

theorem process_pivot_data_none:
  "(process_pivot_data py cfg date_label
        (pivot_data :: ('d::linorder, 'v) table option) metrics cb = Inr None
      \<longleftrightarrow> pivot_data = None
          \<or> (\<exists>t. pivot_data = Some t
                \<and> (dict_empty t \<or> Reporting_Date t = None \<or> Reporting_Date t = Some [])))
   \<and> (pivot_wf (pd :: ('d, 'v) table) apps plans dates \<and> dates \<noteq> [] \<longrightarrow>
        (\<exists>df. process_pivot_data py cfg date_label (Some pd) metrics cb = Inr (Some df)
           \<and> length (records df) = card (set (zip apps plans)) * length metrics))"
proof (intro conjI impI)
  show "process_pivot_data py cfg date_label pivot_data metrics cb = Inr None
      \<longleftrightarrow> pivot_data = None
          \<or> (\<exists>t. pivot_data = Some t
                \<and> (dict_empty t \<or> Reporting_Date t = None \<or> Reporting_Date t = Some []))"
    by (rule process_pivot_data_None_iff)
next
  assume a: "pivot_wf pd apps plans dates \<and> dates \<noteq> []"
  then have "process_pivot_data py cfg date_label (Some pd) metrics cb
    = Inr (Some (DataFrame
        (concat (map (\<lambda>(a, p).
            map (make_row py cfg date_label
                   (lookup_upto pd metrics apps plans dates (length dates)) cb
                   (rev (sorted_list_of_set (set dates))) a p) metrics)
          (sorted_list_of_set (set (zip apps plans)))))))"
    by (simp add: process_pivot_data_rows)
  moreover have "length (concat (map (\<lambda>(a, p).
            map (make_row py cfg date_label
                   (lookup_upto pd metrics apps plans dates (length dates)) cb
                   (rev (sorted_list_of_set (set dates))) a p) metrics)
          (sorted_list_of_set (set (zip apps plans)))))
      = card (set (zip apps plans)) * length metrics"
    using length_concat_blocks [of "\<lambda>x. make_row py cfg date_label
                   (lookup_upto pd metrics apps plans dates (length dates)) cb
                   (rev (sorted_list_of_set (set dates))) (fst x) (snd x)" metrics
        "sorted_list_of_set (set (zip apps plans))"]
    by (simp add: case_prod_unfold)
  ultimately show "\<exists>df. process_pivot_data py cfg date_label (Some pd) metrics cb = Inr (Some df)
      \<and> length (records df) = card (set (zip apps plans)) * length metrics"
    by simp
qed

theorem process_pivot_data_none_witness:
  "process_pivot_data whole_numbers Map.empty strftime_mdY
      (None :: (nat \<times> nat \<times> nat, int) table option) [''M''] False = Inr None
   \<and> pivot_wf example_pivot [''A'', ''A'', ''A'', ''A''] [''P2'', ''P1'', ''P2'', ''P1'']
       [(2024, 1, 1), (2024, 1, 1), (2024, 2, 1), (2024, 2, 1)]
   \<and> (\<exists>df. process_pivot_data whole_numbers Map.empty strftime_mdY (Some example_pivot)
               [''M''] False = Inr (Some df))"
proof -
  have ne: "[(2024::nat, 1::nat, 1::nat), (2024, 1, 1), (2024, 2, 1), (2024, 2, 1)] \<noteq> []"
    by simp
  note inst = process_pivot_data_none
    [of whole_numbers Map.empty strftime_mdY None "[''M'']" False example_pivot
      "[''A'', ''A'', ''A'', ''A'']" "[''P2'', ''P1'', ''P2'', ''P1'']"
      "[(2024, 1, 1), (2024, 1, 1), (2024, 2, 1), (2024, 2, 1)]"]
  from inst [THEN conjunct1]
  have a: "process_pivot_data whole_numbers Map.empty strftime_mdY
      (None :: (nat \<times> nat \<times> nat, int) table option) [''M''] False = Inr None"
    by blast
  from inst [THEN conjunct2] example_pivot_wf ne
  have b: "\<exists>df. process_pivot_data whole_numbers Map.empty strftime_mdY (Some example_pivot)
               [''M''] False = Inr (Some df)"
    by blast
  from a b example_pivot_wf show ?thesis
    by blast
qed

text \<open>
  Claim C9. For a well-formed table with at least one row (the date labels as in C1) the
  columns of the data frame are \<^verbatim>\<open>App\<close>, \<^verbatim>\<open>Plan\<close>, \<^verbatim>\<open>Metric\<close> and the date columns;
  the date columns are the labels of the distinct dates, in descending order and without
  repetition, and the label is a bijection between the distinct dates of the input and
  the date columns: no date is added and none is dropped. The selection of metrics is
  not empty: \<^verbatim>\<open>load_data\<close>, the only caller, returns before the call when no metric is
  selected (app.py, lines 493-497), and the columns of the frame are the keys of its
  rows, of which an empty selection has none (\<open>no_metric_result\<close>).
\<close>

theorem process_pivot_data_date_columns:
  assumes "pivot_wf pd apps plans dates" and "dates \<noteq> []"
    and "inj_on date_label (set dates)"
    and "\<forall>d \<in> set dates. date_label d \<notin> {''App'', ''Plan'', ''Metric''}"
    and "metrics \<noteq> []"
  shows "\<exists>df. process_pivot_data py cfg date_label (Some pd) metrics cb = Inr (Some df)
    \<and> columns df = [''App'', ''Plan'', ''Metric''] @ date_columns df
    \<and> date_columns df = map date_label (rev (sorted_list_of_set (set dates)))
    \<and> distinct (date_columns df)
    \<and> set (date_columns df) = date_label ` set dates
    \<and> bij_betw date_label (set dates) (set (date_columns df))"
proof -
  let ?rows = "pivot_rows py cfg date_label pd apps plans dates metrics cb"
  let ?labels = "map date_label (rev (sorted_list_of_set (set dates)))"
  have eq: "process_pivot_data py cfg date_label (Some pd) metrics cb
      = Inr (Some (DataFrame ?rows))"
    using assms(1-4) by (rule process_pivot_data_wf)
  have "0 < length dates"
    using assms(2) by simp
  then have "(apps ! 0, plans ! 0) \<in> set (zip apps plans)"
    by (rule zip_nonempty_pairs [OF assms(1)])
  then have "card (set (zip apps plans)) \<noteq> 0"
    by auto
  then have "length ?rows \<noteq> 0"
    using assms(5) by (simp add: length_pivot_rows)
  then have ne: "?rows \<noteq> []"
    by simp
  have cols: "columns (DataFrame ?rows) = [''App'', ''Plan'', ''Metric''] @ ?labels"
    using ne by (rule columns_DataFrame) (simp add: pivot_rows_keys)
  have "filter (\<lambda>c. c \<notin> {''App'', ''Plan'', ''Metric''}) ?labels = ?labels"
    using assms(4) by (auto simp: filter_id_conv)
  then have dc: "date_columns (DataFrame ?rows) = ?labels"
    by (simp add: date_columns_def cols)
  have dist: "distinct ?labels"
    using assms(3) by (simp add: distinct_map)
  have img: "set ?labels = date_label ` set dates"
    by simp
  have bij: "bij_betw date_label (set dates) (set ?labels)"
    using assms(3) by (simp add: bij_betw_def)
  show ?thesis
    unfolding eq using cols dc dist img bij
    by (intro exI [of _ "DataFrame ?rows"]) (simp only: simp_thms)
qed

theorem process_pivot_data_date_columns_witness:
  "pivot_wf example_pivot [''A'', ''A'', ''A'', ''A''] [''P2'', ''P1'', ''P2'', ''P1'']
     [(2024, 1, 1), (2024, 1, 1), (2024, 2, 1), (2024, 2, 1)]
   \<and> inj_on strftime_mdY (set [(2024, 1, 1), (2024, 1, 1), (2024, 2, 1), (2024, 2, 1)])
   \<and> (\<exists>df. process_pivot_data whole_numbers Map.empty strftime_mdY (Some example_pivot)
               [''M''] False = Inr (Some df)
          \<and> date_columns df = [''02/01/2024'', ''01/01/2024'']
          \<and> bij_betw strftime_mdY
               (set [(2024, 1, 1), (2024, 1, 1), (2024, 2, 1), (2024, 2, 1)])
               (set (date_columns df)))"
proof -
  have ne: "[(2024::nat, 1::nat, 1::nat), (2024, 1, 1), (2024, 2, 1), (2024, 2, 1)] \<noteq> []"
    by simp
  have ms: "[''M''] \<noteq> []"
    by simp
  from process_pivot_data_date_columns
    [OF example_pivot_wf ne example_dates_inj example_dates_res ms,
      of whole_numbers Map.empty False]
  obtain df where df:
    "process_pivot_data whole_numbers Map.empty strftime_mdY (Some example_pivot)
        [''M''] False = Inr (Some df)"
    "bij_betw strftime_mdY (set [(2024, 1, 1), (2024, 1, 1), (2024, 2, 1), (2024, 2, 1)])
       (set (date_columns df))"
    by blast
  from df(1) have "date_columns df = [''02/01/2024'', ''01/01/2024'']"
    unfolding example_result by (auto simp: date_columns_def)
  with df example_pivot_wf example_dates_inj show ?thesis
    by blast
qed

end
